theory Spec2Isabelle
  imports Complex_Main
begin

section \<open>Data model (types.ts)\<close>

text \<open>
  A JavaScript number as far as the job timestamps need it: an integer count of
  milliseconds, or \<open>NaN\<close> (what \<open>new Date(s).getTime()\<close> gives for a text that is
  not a date). Fractions and infinities are left out.
\<close>

datatype jsnum = NaN | Num int

fun js_sub :: "jsnum \<Rightarrow> jsnum \<Rightarrow> jsnum" where
  "js_sub (Num a) (Num b) = Num (a - b)"
| "js_sub _ _ = NaN"

text \<open>
  An optional property of an object. The key can be missing, it can be there holding
  \<open>undefined\<close> (\<open>intakeImage: currentImage || undefined\<close> in the intake form,
  \<open>intakeImage\<close> in \<open>rowToJob\<close>), or it holds a value. Reading the property gives
  \<open>undefined\<close> in the first two cases; object spread copies the key in the last two.
\<close>

datatype 'a optional = Absent | Undefined | Present 'a

fun rd :: "'a optional \<Rightarrow> 'a option" where
  "rd (Present v) = Some v"
| "rd _ = None"

fun hasOwn :: "'a optional \<Rightarrow> bool" where
  "hasOwn Absent = False"
| "hasOwn _ = True"

fun ofValue :: "'a option \<Rightarrow> 'a optional" where
  "ofValue None = Undefined"
| "ofValue (Some v) = Present v"

record CarDetails =
  plate :: string
  make' :: string
  model :: string
  year :: "string optional"
  color :: "string optional"

text \<open>
  \<open>status\<close> and \<open>repairType\<close> are strings at run time: \<open>rowToJob\<close> casts whatever
  the cell holds (\<open>row[2] as JobStatus\<close>), so the enum is kept as its string values.
\<close>

definition JobStatus_INTAKE :: string where "JobStatus_INTAKE = ''Ingreso''"
definition JobStatus_ASSESSING :: string where
  "JobStatus_ASSESSING = ''Valoraci'' @ [char_of (243::nat)] @ ''n''"
definition JobStatus_IN_PROGRESS :: string where "JobStatus_IN_PROGRESS = ''En Proceso''"
definition JobStatus_COMPLETED :: string where "JobStatus_COMPLETED = ''Terminado''"

record Job =
  jobId :: string
  createdAt :: jsnum
  status :: string
  carDetails :: "CarDetails optional"
  intakeImage :: "string optional"
  damageImages :: "string list optional"
  identifiedParts :: "string list"
  manualNotes :: string
  repairType :: string

section \<open>The library pieces the merge uses\<close>

subsection \<open>Map: keys in insertion order, set keeps the place of a key already there\<close>

type_synonym jobMap = "(string \<times> Job) list"

fun map_set :: "string \<Rightarrow> Job \<Rightarrow> jobMap \<Rightarrow> jobMap" where
  "map_set k v [] = [(k, v)]"
| "map_set k v ((k', v') # m) = (if k' = k then (k, v) # m else (k', v') # map_set k v m)"

definition map_get :: "jobMap \<Rightarrow> string \<Rightarrow> Job option" where
  "map_get m k = map_of m k"

definition map_values :: "jobMap \<Rightarrow> Job list" where
  "map_values m = map snd m"

subsection \<open>Array.prototype.sort with a compare function\<close>

text \<open>
  The sort is stable, a compare result of \<open>NaN\<close> counts as \<open>+0\<close>, and \<open>a\<close> goes
  before \<open>b\<close> when the result is negative. With a consistent compare function the
  result is fixed by these rules; the model is the insertion sort that obeys them.
\<close>

fun negative :: "jsnum \<Rightarrow> bool" where
  "negative (Num v) = (v < 0)"
| "negative NaN = False"

fun sort_insert :: "('a \<Rightarrow> 'a \<Rightarrow> jsnum) \<Rightarrow> 'a \<Rightarrow> 'a list \<Rightarrow> 'a list" where
  "sort_insert cmp x [] = [x]"
| "sort_insert cmp x (y # ys) =
     (if negative (cmp x y) then x # y # ys else y # sort_insert cmp x ys)"

definition array_sort :: "('a \<Rightarrow> 'a \<Rightarrow> jsnum) \<Rightarrow> 'a list \<Rightarrow> 'a list" where
  "array_sort cmp xs = foldl (\<lambda>acc x. sort_insert cmp x acc) [] xs"

definition byCreatedAtDesc :: "Job \<Rightarrow> Job \<Rightarrow> jsnum" where
  \<comment> \<open>\<open>(a, b) => b.createdAt - a.createdAt\<close>\<close>
  "byCreatedAtDesc a b = js_sub (createdAt b) (createdAt a)"

section \<open>The merge step\<close>

text \<open>Truthiness of a string read from an optional property: defined and not empty.\<close>

fun truthy :: "string option \<Rightarrow> bool" where
  "truthy (Some s) = (s \<noteq> [])"
| "truthy None = False"

definition js_or :: "string option \<Rightarrow> string option \<Rightarrow> string option" where
  "js_or a b = (if truthy a then a else b)"

fun nonEmptyArray :: "'a list option \<Rightarrow> bool" where
  \<comment> \<open>\<open>xs && xs.length > 0\<close>\<close>
  "nonEmptyArray (Some xs) = (xs \<noteq> [])"
| "nonEmptyArray None = False"

definition overlay :: "Job \<Rightarrow> Job \<Rightarrow> Job" where
  \<comment> \<open>\<open>{ ...rJob, ...lJob, intakeImage: ..., damageImages: ... }\<close>: the required keys
      are in both objects, so the local ones win; \<open>carDetails\<close> is the local one when
      the local object has the key.\<close>
  "overlay rJob lJob =
     \<lparr> jobId = jobId lJob,
       createdAt = createdAt lJob,
       status = status lJob,
       carDetails = (if hasOwn (carDetails lJob) then carDetails lJob else carDetails rJob),
       intakeImage = ofValue (js_or (rd (intakeImage lJob)) (rd (intakeImage rJob))),
       damageImages =
         ofValue (if nonEmptyArray (rd (damageImages lJob))
                  then rd (damageImages lJob) else rd (damageImages rJob)),
       identifiedParts = identifiedParts lJob,
       manualNotes = manualNotes lJob,
       repairType = repairType lJob \<rparr>"

subsection \<open>syncWithFirebase, lines 111 to 142\<close>

definition fbSeed :: "jobMap \<Rightarrow> Job \<Rightarrow> jobMap" where
  "fbSeed m rJob = map_set (jobId rJob) rJob m"

definition fbOverlay :: "jobMap \<Rightarrow> Job \<Rightarrow> jobMap" where
  "fbOverlay m lJob =
     (case map_get m (jobId lJob) of
        Some rJob \<Rightarrow> map_set (jobId lJob) (overlay rJob lJob) m
      | None \<Rightarrow> map_set (jobId lJob) lJob m)"

definition mergeFirebase :: "Job list \<Rightarrow> Job list \<Rightarrow> Job list" where
  "mergeFirebase localJobs remoteJobs =
     array_sort byCreatedAtDesc
       (map_values (foldl fbOverlay (foldl fbSeed [] remoteJobs) localJobs))"

subsection \<open>syncWithGoogleSheets, lines 153 to 187\<close>

definition shSeed :: "jobMap \<Rightarrow> Job \<Rightarrow> jobMap" where
  "shSeed m job = (if jobId job \<noteq> [] then map_set (jobId job) job m else m)"

definition shOverlay :: "jobMap \<Rightarrow> Job \<Rightarrow> jobMap" where
  "shOverlay m localJob =
     (if jobId localJob \<noteq> [] then
        (case map_get m (jobId localJob) of
           Some sheetJob \<Rightarrow> map_set (jobId localJob) (overlay sheetJob localJob) m
         | None \<Rightarrow> map_set (jobId localJob) localJob m)
      else m)"

definition mergeSheets :: "Job list \<Rightarrow> Job list \<Rightarrow> Job list" where
  "mergeSheets localJobs sheetJobs =
     array_sort byCreatedAtDesc
       (map_values (foldl shOverlay (foldl shSeed [] sheetJobs) localJobs))"

section \<open>Errors\<close>

datatype error =
    ConfigError          \<comment> \<open>the settings the orchestrator needs are missing\<close>
  | RangeError           \<comment> \<open>\<open>toISOString\<close> of an invalid date\<close>
  | SyntaxError          \<comment> \<open>\<open>JSON.parse\<close>, \<open>response.json()\<close>\<close>
  | NetworkError         \<comment> \<open>a rejected \<open>fetch\<close>\<close>
  | BackendError         \<comment> \<open>a rejected Firestore call\<close>
  | PermissionDenied     \<comment> \<open>status 401 or 403 on the spreadsheet metadata\<close>
  | NotFound             \<comment> \<open>status 404 on the spreadsheet metadata\<close>
  | ConnectError         \<comment> \<open>any other failed metadata request\<close>
  | CreateSheetError     \<comment> \<open>the tab could not be created\<close>
  | WriteError string    \<comment> \<open>the rows could not be written, with the backend's message\<close>

section \<open>Row codec (part_004, lines 6 to 69)\<close>

text \<open>
  A row as the Sheets values API returns it with the default render option: a list of
  cells that are formatted strings. \<open>None\<close> stands for a cell that is \<open>undefined\<close> or
  \<open>null\<close>; a row can be shorter than eleven cells.
\<close>

type_synonym row = "string option list"

text \<open>
  What \<open>rowToJob\<close> looks at in the result of \<open>JSON.parse\<close>: an array, with elements
  taken to be strings as \<open>Job\<close> declares the images, or another JSON value.
\<close>

datatype parsed = JArray "string list" | JOther

text \<open>
  The library calls of the codec, as parameters: the time value of \<open>new Date()\<close>, the
  ISO text of a valid time value, the time value of \<open>new Date(text)\<close> (\<open>NaN\<close> when the
  text is not a date), and \<open>JSON.parse\<close> (\<open>None\<close> when it throws).
\<close>

record js_env =
  Date_now :: int
  isoText :: "int \<Rightarrow> string"
  Date_parse :: "string \<Rightarrow> jsnum"
  JSON_parse :: "string \<Rightarrow> parsed option"

definition validTime :: "int \<Rightarrow> bool" where
  \<comment> \<open>a time value is valid up to 8.64e15 ms either side of the epoch\<close>
  "validTime t = (\<bar>t\<bar> \<le> 8640000000000000)"

definition toISOString :: "js_env \<Rightarrow> jsnum \<Rightarrow> error + string" where
  \<comment> \<open>\<open>new Date(t).toISOString()\<close>\<close>
  "toISOString env t =
     (case t of
        NaN \<Rightarrow> Inl RangeError
      | Num n \<Rightarrow> if validTime n then Inr (isoText env n) else Inl RangeError)"

definition orDefault :: "string option \<Rightarrow> string \<Rightarrow> string" where
  \<comment> \<open>\<open>x || d\<close> for a string or undefined \<open>x\<close>\<close>
  "orDefault x d = (case x of Some s \<Rightarrow> if s \<noteq> [] then s else d | None \<Rightarrow> d)"

fun join :: "string \<Rightarrow> string list \<Rightarrow> string" where
  "join sep [] = []"
| "join sep [x] = x"
| "join sep (x # y # ys) = x @ sep @ join sep (y # ys)"

fun split_comma_space :: "string \<Rightarrow> string list" where
  \<comment> \<open>\<open>s.split(', ')\<close>\<close>
  "split_comma_space [] = [[]]"
| "split_comma_space [c] = [[c]]"
| "split_comma_space (c # d # cs) =
     (if c = CHR '','' \<and> d = CHR '' '' then [] # split_comma_space cs
      else (case split_comma_space (d # cs) of
              w # ws \<Rightarrow> (c # w) # ws
            | [] \<Rightarrow> [[c]]))"

definition carText :: "Job \<Rightarrow> (CarDetails \<Rightarrow> string) \<Rightarrow> string" where
  \<comment> \<open>\<open>job.carDetails?.f || ''\<close>\<close>
  "carText job f = orDefault (map_option f (rd (carDetails job))) []"

definition jobToRow :: "js_env \<Rightarrow> Job \<Rightarrow> error + row" where
  "jobToRow env job =
     (case toISOString env (createdAt job) of
        Inl e \<Rightarrow> Inl e
      | Inr isoStr \<Rightarrow>
          Inr [ Some (jobId job),
                Some isoStr,
                Some (status job),
                Some (carText job plate),
                Some (carText job make'),
                Some (carText job model),
                Some (repairType job),
                Some (join '', '' (identifiedParts job)),
                Some (orDefault (Some (manualNotes job)) []),
                Some ''[]'',
                Some ''[]'' ])"

definition cell :: "row \<Rightarrow> nat \<Rightarrow> string option" where
  \<comment> \<open>\<open>row[i]\<close>: \<open>undefined\<close> beyond the end\<close>
  "cell r i = (if i < length r then r ! i else None)"

definition tryParseImages ::
    "js_env \<Rightarrow> string \<Rightarrow> string \<Rightarrow> error option \<times> string option \<times> string list" where
  \<comment> \<open>the body of the \<open>try\<close>, from \<open>intakeImage = undefined\<close> and \<open>damageImages = []\<close>:
      the exception, if any, and the two variables as they stand when it is thrown\<close>
  "tryParseImages env intakeJson damageJson =
     (case JSON_parse env intakeJson of
        None \<Rightarrow> (Some SyntaxError, None, [])
      | Some parsedIntake \<Rightarrow>
          (let intakeImage = (case parsedIntake of JArray (x # _) \<Rightarrow> Some x | _ \<Rightarrow> None)
           in case JSON_parse env damageJson of
                None \<Rightarrow> (Some SyntaxError, intakeImage, [])
              | Some parsedDamage \<Rightarrow>
                  (None, intakeImage,
                   (case parsedDamage of JArray xs \<Rightarrow> xs | JOther \<Rightarrow> []))))"

definition rowToJob :: "js_env \<Rightarrow> row \<Rightarrow> Job" where
  "rowToJob env r =
     (let id = orDefault (cell r 0) [];
          dateStr = orDefault (cell r 1) (isoText env (Date_now env));
          status = orDefault (cell r 2) JobStatus_INTAKE;
          plate = orDefault (cell r 3) [];
          make = orDefault (cell r 4) [];
          model = orDefault (cell r 5) [];
          repairType = orDefault (cell r 6) ''AMBOS'';
          partsStr = orDefault (cell r 7) [];
          notes = orDefault (cell r 8) [];
          intakeJson = orDefault (cell r 9) ''[]'';
          damageJson = orDefault (cell r 10) ''[]'';
          (caught, intakeImage, damageImages) = tryParseImages env intakeJson damageJson
      in \<lparr> jobId = id,
           createdAt = Date_parse env dateStr,
           status = status,
           carDetails = Present \<lparr> plate = plate, make' = make, model = model,
                                   year = Absent, color = Absent \<rparr>,
           intakeImage = ofValue intakeImage,
           damageImages = Present damageImages,
           identifiedParts = (if partsStr \<noteq> [] then split_comma_space partsStr else []),
           manualNotes = notes,
           repairType = repairType \<rparr>)"

definition roundTrip :: "js_env \<Rightarrow> Job \<Rightarrow> error + Job" where
  \<comment> \<open>\<open>rowToJob(jobToRow(job))\<close>\<close>
  "roundTrip env job = (case jobToRow env job of Inl e \<Rightarrow> Inl e | Inr r \<Rightarrow> Inr (rowToJob env r))"

section \<open>Document store orchestrator (part_003)\<close>

subsection \<open>Settings\<close>

record FirebaseConfig =
  apiKey :: string
  authDomain :: string
  projectId :: string
  storageBucket :: "string option"
  messagingSenderId :: "string option"
  appId :: string

record AppSettings =
  firebaseConfig :: "FirebaseConfig option"
  googleSheetId :: "string option"
  googleAccessToken :: "string option"

subsection \<open>compressImage, lines 25 to 61\<close>

text \<open>
  The browser calls, as parameters: decoding the data URL (\<open>onload\<close> with the image's
  width and height, or \<open>onerror\<close>, \<open>None\<close>), whether the canvas gives a 2d context,
  and the text after the comma of \<open>canvas.toDataURL('image/jpeg', quality)\<close> for a
  canvas of the given width and height on which the image was drawn.
\<close>

record browser =
  decodeImage :: "string \<Rightarrow> (nat \<times> nat) option"
  context2d :: bool
  encodeJpeg :: "nat \<Rightarrow> nat \<Rightarrow> string \<Rightarrow> rat \<Rightarrow> string"

definition roundDiv :: "nat \<Rightarrow> nat \<Rightarrow> nat" where
  \<comment> \<open>\<open>Math.round(a / b)\<close> for natural numbers, \<open>b\<close> positive: the nearest integer,
      a half rounded up (the double quotient rounds the same way as the exact one for
      \<open>a\<close> below \<open>2^52\<close>, far above what image sizes give)\<close>
  "roundDiv a b = (2 * a + b) div (2 * b)"

definition canvasSize :: "nat \<Rightarrow> nat \<Rightarrow> nat \<Rightarrow> nat \<times> nat" where
  \<comment> \<open>lines 31 to 41: the width and height given to the canvas\<close>
  "canvasSize width height maxWidth =
     (if width > maxWidth then (maxWidth, roundDiv (height * maxWidth) width)
      else (width, height))"

definition compressImage :: "browser \<Rightarrow> string \<Rightarrow> nat \<Rightarrow> rat \<Rightarrow> string" where
  "compressImage br base64 maxWidth quality =
     (case decodeImage br base64 of
        None \<Rightarrow> base64
      | Some (width, height) \<Rightarrow>
          (case canvasSize width height maxWidth of
             (w, h) \<Rightarrow> if \<not> context2d br then base64 else encodeJpeg br w h base64 quality))"

definition compressDefault :: "browser \<Rightarrow> string \<Rightarrow> string" where
  \<comment> \<open>\<open>compressImage(img)\<close> with the default \<open>maxWidth = 800\<close> and \<open>quality = 0.6\<close>\<close>
  "compressDefault br img = compressImage br img 800 (6 / 10)"

subsection \<open>prepareJobForCloud, lines 64 to 90\<close>

text \<open>
  Job objects live in a store, addressed by their position, so that the assignments to
  \<open>jobToSave\<close> are mutations of an object and sharing is visible. \<open>{ ...job }\<close> is a
  new object with the keys of \<open>job\<close>.
\<close>

type_synonym ref = nat
type_synonym store = "Job list"

definition allocate :: "store \<Rightarrow> Job \<Rightarrow> ref \<times> store" where
  "allocate h obj = (length h, h @ [obj])"

definition prepareJobForCloud :: "browser \<Rightarrow> store \<Rightarrow> ref \<Rightarrow> ref \<times> store" where
  "prepareJobForCloud br h job =
     (case allocate h (h ! job) of
        (jobToSave, h1) \<Rightarrow>
          (let h2 = (case rd (intakeImage (h1 ! jobToSave)) of
                       Some img \<Rightarrow>
                         if img \<noteq> []
                         then h1[jobToSave := (h1 ! jobToSave)
                                \<lparr>intakeImage := Present (compressDefault br img)\<rparr>]
                         else h1
                     | None \<Rightarrow> h1);
               h3 = (case rd (damageImages (h2 ! jobToSave)) of
                       Some imgs \<Rightarrow>
                         if imgs \<noteq> []
                         then h2[jobToSave := (h2 ! jobToSave)
                                \<lparr>damageImages := Present (map (compressDefault br) imgs)\<rparr>]
                         else h2
                     | None \<Rightarrow> h2)
           in (jobToSave, h3)))"

subsection \<open>The document written: JSON.parse(JSON.stringify(dataToSave))\<close>

text \<open>
  The round trip through JSON drops every key that holds \<open>undefined\<close> and writes
  \<open>NaN\<close> as \<open>null\<close>. In a document a missing key is \<open>None\<close>, and so is a \<open>null\<close>
  createdAt.
\<close>

record CarDoc =
  docPlate :: string
  docMake :: string
  docModel :: string
  docYear :: "string option"
  docColor :: "string option"

record JobDoc =
  docId :: string
  docCreatedAt :: "int option"
  docStatus :: string
  docCarDetails :: "CarDoc option"
  docIntakeImage :: "string option"
  docDamageImages :: "string list option"
  docIdentifiedParts :: "string list"
  docManualNotes :: string
  docRepairType :: string

definition cleanCar :: "CarDetails \<Rightarrow> CarDoc" where
  "cleanCar c =
     \<lparr> docPlate = plate c, docMake = make' c, docModel = model c,
       docYear = rd (year c), docColor = rd (color c) \<rparr>"

definition cleanData :: "Job \<Rightarrow> JobDoc" where
  "cleanData j =
     \<lparr> docId = jobId j,
       docCreatedAt = (case createdAt j of Num n \<Rightarrow> Some n | NaN \<Rightarrow> None),
       docStatus = status j,
       docCarDetails = map_option cleanCar (rd (carDetails j)),
       docIntakeImage = rd (intakeImage j),
       docDamageImages = rd (damageImages j),
       docIdentifiedParts = identifiedParts j,
       docManualNotes = manualNotes j,
       docRepairType = repairType j \<rparr>"

subsection \<open>The backend, seen through its two calls\<close>

text \<open>
  \<open>getDocs\<close> answers with the collection or rejects; \<open>batch.commit()\<close> resolves or
  rejects. Every call is recorded, a commit with its \<open>set\<close> operations (document id and
  data, each with \<open>merge: true\<close>).
\<close>

datatype firestoreCall = GetDocs | Commit "(string \<times> JobDoc) list"

record firestore =
  calls :: "firestoreCall list"
  snapshot :: "error + Job list"
  commitAnswer :: "error option"
  acceptsId :: "string \<Rightarrow> bool"

definition getDocs :: "firestore \<Rightarrow> (error + Job list) \<times> firestore" where
  "getDocs fs = (snapshot fs, fs\<lparr>calls := calls fs @ [GetDocs]\<rparr>)"

definition commit :: "(string \<times> JobDoc) list \<Rightarrow> firestore \<Rightarrow> error option \<times> firestore" where
  "commit batch fs = (commitAnswer fs, fs\<lparr>calls := calls fs @ [Commit batch]\<rparr>)"

text \<open>
  \<open>doc(database, COLLECTION_NAME, job.id)\<close> throws for an id that is no document id
  (the empty string, for one); which ids the library accepts is the parameter
  \<open>acceptsId\<close>. \<open>getDb\<close> sets up the client and sends nothing.
\<close>

subsection \<open>syncWithFirebase, lines 94 to 174\<close>

fun saveLoop ::
    "browser \<Rightarrow> (string \<Rightarrow> bool) \<Rightarrow> ref list \<Rightarrow> store \<Rightarrow> (string \<times> JobDoc) list \<Rightarrow> nat
       \<Rightarrow> error + store \<times> (string \<times> JobDoc) list \<times> nat" where
  \<comment> \<open>lines 155 to 167, over the store, the batch and \<open>opCount\<close>\<close>
  "saveLoop br accepts [] h batch opCount = Inr (h, batch, opCount)"
| "saveLoop br accepts (job # rest) h batch opCount =
     (if \<not> accepts (jobId (h ! job)) then Inl BackendError
      else
        (case prepareJobForCloud br h job of
           (dataToSave, h') \<Rightarrow>
             saveLoop br accepts rest h'
               (batch @ [(jobId (h ! job), cleanData (h' ! dataToSave))]) (opCount + 1)))"

definition syncWithFirebase ::
    "browser \<Rightarrow> Job list \<Rightarrow> AppSettings \<Rightarrow> firestore \<Rightarrow> (error + Job list) \<times> firestore" where
  "syncWithFirebase br localJobs settings fs =
     (if (case firebaseConfig settings of None \<Rightarrow> True | Some c \<Rightarrow> apiKey c = [])
      then (Inl ConfigError, fs)
      else
        (case getDocs fs of
           (Inl e, fs1) \<Rightarrow> (Inl e, fs1)
         | (Inr remoteJobs, fs1) \<Rightarrow>
             (let h0 = mergeFirebase localJobs remoteJobs;
                  mergedJobs = [0..<length h0];
                  jobsToSave = take 450 mergedJobs
              in case saveLoop br (acceptsId fs1) jobsToSave h0 [] 0 of
                   Inl e \<Rightarrow> (Inl e, fs1)
                 | Inr (h, batch, opCount) \<Rightarrow>
                     if opCount > 0
                     then (case commit batch fs1 of
                             (Some e, fs2) \<Rightarrow> (Inl e, fs2)
                           | (None, fs2) \<Rightarrow> (Inr (map (\<lambda>job. h ! job) mergedJobs), fs2))
                     else (Inr (map (\<lambda>job. h ! job) mergedJobs), fs1))))"

subsection \<open>The caller (App, performSync)\<close>

text \<open>
  The state the caller keeps, after the call has settled; the status passes through
  \<open>syncing\<close> on the way and a timer sets it back to \<open>idle\<close> later.
\<close>

record appState =
  jobs :: "Job list"
  syncStatus :: string

definition performSync ::
    "browser \<Rightarrow> Job list \<Rightarrow> AppSettings \<Rightarrow> appState \<Rightarrow> firestore \<Rightarrow> appState \<times> firestore" where
  "performSync br currentJobs currentSettings app fs =
     (case firebaseConfig currentSettings of
        None \<Rightarrow> (app, fs)
      | Some _ \<Rightarrow>
          (case syncWithFirebase br currentJobs currentSettings fs of
             (Inr merged, fs') \<Rightarrow> (app\<lparr>jobs := merged, syncStatus := ''synced''\<rparr>, fs')
           | (Inl err, fs') \<Rightarrow> (app\<lparr>syncStatus := ''error''\<rparr>, fs')))"

section \<open>Spreadsheet orchestrator (part_004, lines 72 to 217)\<close>

definition SHEET_NAME :: string where "SHEET_NAME = ''TallerProData''"

text \<open>
  The spreadsheet named by the settings, seen through \<open>fetch\<close>: the requests sent so
  far, and the answer to a request given the earlier ones (\<open>None\<close> when \<open>fetch\<close>
  rejects). Of a response the code reads \<open>ok\<close>, \<open>status\<close> and the parsed body
  (\<open>None\<close> when \<open>json()\<close> rejects); of a body, the titles of \<open>sheets\<close>, \<open>values\<close>
  and \<open>error.message\<close>.
\<close>

datatype request =
    GetMeta | AddSheet | AppendHeaders | GetValues | ClearRows | AppendRows "row list"

record body =
  sheetTitles :: "string list option"
  rowValues :: "row list option"
  errorMessage :: "string option"

record response =
  ok :: bool
  httpStatus :: nat
  json :: "body option"

record sheets =
  requests :: "request list"
  answer :: "request list \<Rightarrow> request \<Rightarrow> response option"

definition fetch :: "request \<Rightarrow> sheets \<Rightarrow> response option \<times> sheets" where
  "fetch req sh = (answer sh (requests sh) req, sh\<lparr>requests := requests sh @ [req]\<rparr>)"

definition ensureSheetExists :: "sheets \<Rightarrow> (error + unit) \<times> sheets" where
  "ensureSheetExists sh =
     (case fetch GetMeta sh of
        (None, sh1) \<Rightarrow> (Inl NetworkError, sh1)
      | (Some metaRes, sh1) \<Rightarrow>
          if \<not> ok metaRes then
            (if httpStatus metaRes = 401 \<or> httpStatus metaRes = 403
             then (Inl PermissionDenied, sh1)
             else if httpStatus metaRes = 404 then (Inl NotFound, sh1)
             else (Inl ConnectError, sh1))
          else
            (case json metaRes of
               None \<Rightarrow> (Inl SyntaxError, sh1)
             | Some metaData \<Rightarrow>
                 if (case sheetTitles metaData of
                       Some titles \<Rightarrow> SHEET_NAME \<in> set titles
                     | None \<Rightarrow> False)
                 then (Inr (), sh1)
                 else
                   (case fetch AddSheet sh1 of
                      (None, sh2) \<Rightarrow> (Inl NetworkError, sh2)
                    | (Some createRes, sh2) \<Rightarrow>
                        if \<not> ok createRes then (Inl CreateSheetError, sh2)
                        else
                          (case fetch AppendHeaders sh2 of
                             (None, sh3) \<Rightarrow> (Inl NetworkError, sh3)
                           | (Some _, sh3) \<Rightarrow> (Inr (), sh3)))))"

definition fetchSheetJobs :: "js_env \<Rightarrow> sheets \<Rightarrow> Job list \<times> sheets" where
  \<comment> \<open>lines 139 to 150: whatever fails inside the \<open>try\<close> leaves \<open>sheetJobs\<close> empty\<close>
  "fetchSheetJobs env sh =
     (case fetch GetValues sh of
        (None, sh') \<Rightarrow> ([], sh')
      | (Some res, sh') \<Rightarrow>
          if ok res then
            (case json res of
               None \<Rightarrow> ([], sh')
             | Some data \<Rightarrow>
                 (case rowValues data of
                    Some rows \<Rightarrow> (map (rowToJob env) rows, sh')
                  | None \<Rightarrow> ([], sh')))
          else ([], sh'))"

fun mapJobToRow :: "js_env \<Rightarrow> Job list \<Rightarrow> error + row list" where
  \<comment> \<open>\<open>mergedJobs.map(jobToRow)\<close>: the first exception ends it\<close>
  "mapJobToRow env [] = Inr []"
| "mapJobToRow env (j # js) =
     (case jobToRow env j of
        Inl e \<Rightarrow> Inl e
      | Inr r \<Rightarrow> (case mapJobToRow env js of Inl e \<Rightarrow> Inl e | Inr rs \<Rightarrow> Inr (r # rs)))"

definition syncWithGoogleSheets ::
    "js_env \<Rightarrow> Job list \<Rightarrow> AppSettings \<Rightarrow> sheets \<Rightarrow> (error + Job list) \<times> sheets" where
  "syncWithGoogleSheets env localJobs settings sh =
     (if \<not> truthy (googleSheetId settings) \<or> \<not> truthy (googleAccessToken settings)
      then (Inl ConfigError, sh)
      else
        (case ensureSheetExists sh of
           (Inl e, sh1) \<Rightarrow> (Inl e, sh1)
         | (Inr _, sh1) \<Rightarrow>
             (case fetchSheetJobs env sh1 of
                (sheetJobs, sh2) \<Rightarrow>
                  (let mergedJobs = mergeSheets localJobs sheetJobs
                   in case fetch ClearRows sh2 of
                        (None, sh3) \<Rightarrow> (Inl NetworkError, sh3)
                      | (Some _, sh3) \<Rightarrow>
                          (case mapJobToRow env mergedJobs of
                             Inl e \<Rightarrow> (Inl e, sh3)
                           | Inr rows \<Rightarrow>
                               (case fetch (AppendRows rows) sh3 of
                                  (None, sh4) \<Rightarrow> (Inl NetworkError, sh4)
                                | (Some writeResponse, sh4) \<Rightarrow>
                                    if \<not> ok writeResponse then
                                      (case json writeResponse of
                                         None \<Rightarrow> (Inl SyntaxError, sh4)
                                       | Some err \<Rightarrow>
                                           (Inl (WriteError
                                                  (orDefault (errorMessage err)
                                                     ''Unknown error'')), sh4))
                                    else (Inr mergedJobs, sh4)))))))"

section \<open>Properties of job lists and maps\<close>

definition keyed :: "jobMap \<Rightarrow> bool" where
  "keyed m = (\<forall>p \<in> set m. jobId (snd p) = fst p)"

fun js_ge :: "jsnum \<Rightarrow> jsnum \<Rightarrow> bool" where
  "js_ge (Num a) (Num b) = (b \<le> a)"
| "js_ge _ _ = False"

definition descending :: "Job list \<Rightarrow> bool" where
  "descending xs = sorted_wrt (\<lambda>a b. js_ge (createdAt a) (createdAt b)) xs"

fun isNum :: "jsnum \<Rightarrow> bool" where
  "isNum (Num _) = True"
| "isNum NaN = False"

definition numbered :: "jobMap \<Rightarrow> bool" where
  "numbered m = (\<forall>p \<in> set m. isNum (createdAt (snd p)))"

definition writtenDoc :: "browser \<Rightarrow> Job \<Rightarrow> JobDoc" where
  \<comment> \<open>the document a job is expected to arrive as: its fields, the images compressed,
      no key for what is \<open>undefined\<close>, \<open>null\<close> for a \<open>NaN\<close> createdAt\<close>
  "writtenDoc br j =
     \<lparr> docId = jobId j,
       docCreatedAt = (case createdAt j of Num n \<Rightarrow> Some n | NaN \<Rightarrow> None),
       docStatus = status j,
       docCarDetails =
         map_option (\<lambda>c. \<lparr> docPlate = plate c, docMake = make' c, docModel = model c,
                              docYear = rd (year c), docColor = rd (color c) \<rparr>)
           (rd (carDetails j)),
       docIntakeImage =
         map_option (\<lambda>img. if img \<noteq> [] then compressDefault br img else img)
           (rd (intakeImage j)),
       docDamageImages = map_option (map (compressDefault br)) (rd (damageImages j)),
       docIdentifiedParts = identifiedParts j,
       docManualNotes = manualNotes j,
       docRepairType = repairType j \<rparr>"

section \<open>Jobs as the intake form creates them (CarIntakeTab, createJob)\<close>

definition createJob :: "string \<Rightarrow> int \<Rightarrow> CarDetails \<Rightarrow> string option \<Rightarrow> Job" where
  \<comment> \<open>the arguments stand for \<open>uuidv4()\<close>, \<open>Date.now()\<close>, the form's \<open>carDetails\<close>
      and \<open>currentImage\<close> (\<open>None\<close> for \<open>null\<close>)\<close>
  "createJob uuid now details currentImage =
     \<lparr> jobId = uuid,
       createdAt = Num now,
       status = JobStatus_INTAKE,
       carDetails = Present details,
       intakeImage = ofValue (js_or currentImage None),
       damageImages = Present [],
       identifiedParts = [],
       manualNotes = [],
       repairType = ''CHAPA'' \<rparr>"

definition seat :: CarDetails where
  "seat = \<lparr> plate = ''1234ABC'', make' = ''Seat'', model = ''Ibiza'',
            year = Absent, color = Absent \<rparr>"

section \<open>Stand-ins for the library and the backends, for concrete runs\<close>

definition stubEnv :: js_env where
  \<comment> \<open>the clock stands at 2023-11-14T22:13:20.000Z; only that text is a date and only
      \<open>[]\<close> is JSON\<close>
  "stubEnv =
     \<lparr> Date_now = 1700000000000,
       isoText = (\<lambda>t. ''2023-11-14T22:13:20.000Z''),
       Date_parse = (\<lambda>s. if s = ''2023-11-14T22:13:20.000Z'' then Num 1700000000000 else NaN),
       JSON_parse = (\<lambda>s. if s = ''[]'' then Some (JArray []) else None) \<rparr>"

definition stubBrowser :: browser where
  \<comment> \<open>every image is 1600 by 1200 and encodes to a text that names the canvas size\<close>
  "stubBrowser =
     \<lparr> decodeImage = (\<lambda>s. Some (1600, 1200)),
       context2d = True,
       encodeJpeg = (\<lambda>w h s q. if (w, h) = (800, 600) then ''small:'' @ s else ''other:'' @ s) \<rparr>"

definition stubStore :: "Job list \<Rightarrow> firestore" where
  \<comment> \<open>a reachable collection holding the given jobs; ids must not be empty\<close>
  "stubStore remote =
     \<lparr> calls = [], snapshot = Inr remote, commitAnswer = None,
       acceptsId = (\<lambda>i. i \<noteq> []) \<rparr>"

definition stubSettings :: AppSettings where
  "stubSettings =
     \<lparr> firebaseConfig =
         Some \<lparr> apiKey = ''key'', authDomain = ''taller.example'', projectId = ''taller'',
                storageBucket = None, messagingSenderId = None, appId = ''1:2:web:3'' \<rparr>,
       googleSheetId = None,
       googleAccessToken = None \<rparr>"

definition noSettings :: AppSettings where
  \<comment> \<open>\<open>useState<AppSettings>({})\<close>\<close>
  "noSettings = \<lparr> firebaseConfig = None, googleSheetId = None, googleAccessToken = None \<rparr>"

definition stubSheets :: sheets where
  "stubSheets = \<lparr> requests = [], answer = (\<lambda>past req. None) \<rparr>"

definition stubApp :: appState where
  "stubApp = \<lparr> jobs = [createJob ''A'' 100 seat None], syncStatus = ''idle'' \<rparr>"

definition sheetSettings :: AppSettings where
  "sheetSettings =
     \<lparr> firebaseConfig = None, googleSheetId = Some ''sheet'',
       googleAccessToken = Some ''token'' \<rparr>"

definition sheetHolding :: "row list \<Rightarrow> sheets" where
  \<comment> \<open>a spreadsheet with the tab in place, holding the given data rows, that answers
      every request with status 200\<close>
  "sheetHolding rows =
     \<lparr> requests = [],
       answer = (\<lambda>past req.
         Some \<lparr> ok = True, httpStatus = 200,
                json = Some \<lparr> sheetTitles = Some [SHEET_NAME], rowValues = Some rows,
                              errorMessage = None \<rparr> \<rparr>) \<rparr>"

definition manyJobs :: "nat \<Rightarrow> Job list" where
  \<comment> \<open>\<open>n\<close> jobs with ids \<open>j\<close>, \<open>jj\<close>, \<open>jjj\<close>, ... created one millisecond apart\<close>
  "manyJobs n = map (\<lambda>k. createJob (replicate (Suc k) CHR ''j'') (int k) seat None) [0..<n]"

section \<open>Facts about the merge step\<close>

lemma map_of_map_set: "map_of (map_set k v m) = (map_of m)(k \<mapsto> v)"
  by (induction m) (auto simp: fun_eq_iff)

lemma set_map_set_sub: "set (map_set k v m) \<subseteq> insert (k, v) (set m)"
  by (induction m) (auto split: if_splits)

lemma map_fst_map_set:
  "map fst (map_set k v m) = (if k \<in> set (map fst m) then map fst m else map fst m @ [k])"
  by (induction m) (fastforce simp: image_iff)+

lemma keys_map_set: "fst ` set (map_set k v m) = insert k (fst ` set m)"
proof -
  have "set (map fst (map_set k v m)) = insert k (set (map fst m))"
    by (simp only: map_fst_map_set) auto
  then show ?thesis by simp
qed

lemma distinct_map_set: "distinct (map fst m) \<Longrightarrow> distinct (map fst (map_set k v m))"
  by (simp add: map_fst_map_set)

lemma values_map_set: "snd ` set (map_set k v m) \<subseteq> insert v (snd ` set m)"
proof -
  have "snd ` set (map_set k v m) \<subseteq> snd ` insert (k, v) (set m)"
    by (rule image_mono [OF set_map_set_sub])
  then show ?thesis by simp
qed

lemma keyed_map_set:
  assumes "keyed m" and "jobId v = k"
  shows "keyed (map_set k v m)"
  unfolding keyed_def
proof
  fix p
  assume "p \<in> set (map_set k v m)"
  then have "p = (k, v) \<or> p \<in> set m"
    using set_map_set_sub by blast
  then show "jobId (snd p) = fst p"
    using assms by (auto simp: keyed_def)
qed

lemma keyed_ids: "keyed m \<Longrightarrow> jobId ` set (map_values m) = fst ` set m"
  by (force simp: keyed_def map_values_def)

lemma overlay_id: "jobId (overlay r l) = jobId l"
  by (simp add: overlay_def)

lemma keyed_fbSeed: "keyed m \<Longrightarrow> keyed (fbSeed m r)"
  by (simp add: fbSeed_def keyed_map_set)

lemma keyed_fbOverlay: "keyed m \<Longrightarrow> keyed (fbOverlay m l)"
  by (simp add: fbOverlay_def keyed_map_set overlay_id split: option.splits)

lemma keyed_shSeed: "keyed m \<Longrightarrow> keyed (shSeed m r)"
  by (simp add: shSeed_def keyed_map_set)

lemma keyed_shOverlay: "keyed m \<Longrightarrow> keyed (shOverlay m l)"
  by (simp add: shOverlay_def keyed_map_set overlay_id split: option.splits)

lemma keyed_foldl:
  assumes "\<And>m x. keyed m \<Longrightarrow> keyed (f m x)"
  shows "keyed m \<Longrightarrow> keyed (foldl f m xs)"
  by (induction xs arbitrary: m) (auto simp: assms)

lemma keys_fbSeed: "fst ` set (fbSeed m r) = insert (jobId r) (fst ` set m)"
  by (simp add: fbSeed_def keys_map_set)

lemma keys_fbOverlay: "fst ` set (fbOverlay m l) = insert (jobId l) (fst ` set m)"
  by (simp add: fbOverlay_def keys_map_set split: option.splits)

lemma keys_shSeed: "fst ` set (shSeed m r) = (if jobId r \<noteq> [] then insert (jobId r) (fst ` set m) else fst ` set m)"
  by (simp add: shSeed_def keys_map_set)

lemma keys_shOverlay: "fst ` set (shOverlay m l) = (if jobId l \<noteq> [] then insert (jobId l) (fst ` set m) else fst ` set m)"
  by (simp add: shOverlay_def keys_map_set split: option.splits)

lemma keys_foldl_fbSeed: "fst ` set (foldl fbSeed m rs) = fst ` set m \<union> jobId ` set rs"
  by (induction rs arbitrary: m) (auto simp: keys_fbSeed)

lemma keys_foldl_fbOverlay: "fst ` set (foldl fbOverlay m ls) = fst ` set m \<union> jobId ` set ls"
  by (induction ls arbitrary: m) (auto simp: keys_fbOverlay)

lemma keys_foldl_shSeed: "fst ` set (foldl shSeed m rs) = fst ` set m \<union> (jobId ` set rs - {[]})"
  by (induction rs arbitrary: m) (auto simp: keys_shSeed)

lemma keys_foldl_shOverlay: "fst ` set (foldl shOverlay m ls) = fst ` set m \<union> (jobId ` set ls - {[]})"
  by (induction ls arbitrary: m) (auto simp: keys_shOverlay)

lemma set_sort_insert: "set (sort_insert cmp x ys) = insert x (set ys)"
  by (induction ys) auto

lemma set_sort_foldl: "set (foldl (\<lambda>acc x. sort_insert cmp x acc) acc xs) = set acc \<union> set xs"
  by (induction xs arbitrary: acc) (auto simp: set_sort_insert)

lemma set_array_sort: "set (array_sort cmp xs) = set xs"
  by (simp add: array_sort_def set_sort_foldl)

lemma keyed_Nil: "keyed []" by (simp add: keyed_def)

lemma shSeed_filter: "foldl shSeed m rs = foldl fbSeed m (filter (\<lambda>j. jobId j \<noteq> []) rs)"
  by (induction rs arbitrary: m) (auto simp: shSeed_def fbSeed_def)

lemma shOverlay_filter: "foldl shOverlay m ls = foldl fbOverlay m (filter (\<lambda>j. jobId j \<noteq> []) ls)"
  by (induction ls arbitrary: m) (auto simp: shOverlay_def fbOverlay_def)

lemma mergeSheets_filter:
  "mergeSheets ls rs =
     mergeFirebase (filter (\<lambda>j. jobId j \<noteq> []) ls) (filter (\<lambda>j. jobId j \<noteq> []) rs)"
  by (simp add: mergeSheets_def mergeFirebase_def shSeed_filter shOverlay_filter)

lemma fbSeed_untouched: "k \<notin> jobId ` set rs \<Longrightarrow> map_of (foldl fbSeed m rs) k = map_of m k"
  by (induction rs arbitrary: m) (auto simp: fbSeed_def map_of_map_set)

lemma fbSeed_entry:
  "distinct (map jobId rs) \<Longrightarrow> r \<in> set rs \<Longrightarrow> map_of (foldl fbSeed m rs) (jobId r) = Some r"
proof (induction rs arbitrary: m)
  case Nil
  then show ?case by simp
next
  case (Cons x xs)
  show ?case
  proof (cases "r \<in> set xs")
    case True
    with Cons show ?thesis by simp
  next
    case False
    with Cons.prems have rx: "r = x" and "jobId x \<notin> jobId ` set xs" by auto
    then show ?thesis
      by (simp add: fbSeed_untouched) (simp add: fbSeed_def map_of_map_set)
  qed
qed

lemma fbOverlay_untouched: "k \<notin> jobId ` set ls \<Longrightarrow> map_of (foldl fbOverlay m ls) k = map_of m k"
  by (induction ls arbitrary: m)
     (auto simp: fbOverlay_def map_get_def map_of_map_set split: option.splits)

lemma fbOverlay_entry:
  "distinct (map jobId ls) \<Longrightarrow> l \<in> set ls \<Longrightarrow>
   map_of (foldl fbOverlay m ls) (jobId l) =
     Some (case map_of m (jobId l) of Some r \<Rightarrow> overlay r l | None \<Rightarrow> l)"
proof (induction ls arbitrary: m)
  case Nil
  then show ?case by simp
next
  case (Cons x xs)
  show ?case
  proof (cases "l \<in> set xs")
    case True
    with Cons.prems have "jobId x \<noteq> jobId l" by auto
    then have "map_of (fbOverlay m x) (jobId l) = map_of m (jobId l)"
      by (simp add: fbOverlay_def map_get_def map_of_map_set split: option.splits)
    with True Cons show ?thesis by simp
  next
    case False
    with Cons.prems have lx: "l = x" and "jobId x \<notin> jobId ` set xs" by auto
    then show ?thesis
      by (simp add: fbOverlay_untouched)
         (simp add: fbOverlay_def map_get_def map_of_map_set split: option.splits)
  qed
qed

lemma distinct_foldl:
  assumes "\<And>m x. distinct (map fst m) \<Longrightarrow> distinct (map fst (f m x))"
  shows "distinct (map fst m) \<Longrightarrow> distinct (map fst (foldl f m xs))"
  by (induction xs arbitrary: m) (auto simp: assms)

lemma distinct_fbSeed: "distinct (map fst m) \<Longrightarrow> distinct (map fst (fbSeed m r))"
  by (simp add: fbSeed_def distinct_map_set)

lemma distinct_fbOverlay: "distinct (map fst m) \<Longrightarrow> distinct (map fst (fbOverlay m l))"
  by (simp add: fbOverlay_def distinct_map_set split: option.splits)

lemma the_entry:
  assumes "keyed m" and "distinct (map fst m)" and "map_of m k = Some v"
  shows "{x \<in> set (map_values m). jobId x = k} = {v}"
proof -
  have "(k, v) \<in> set m" using assms(3) by (rule map_of_SomeD)
  moreover have "x = v" if "x \<in> set (map_values m)" and "jobId x = k" for x
  proof -
    from that obtain k' where "(k', x) \<in> set m" by (auto simp: map_values_def)
    with assms(1) that have "(k, x) \<in> set m" by (auto simp: keyed_def)
    with assms(2) have "map_of m k = Some x" by simp
    with assms(3) show ?thesis by simp
  qed
  ultimately show ?thesis using assms(1) by (force simp: keyed_def map_values_def)
qed

lemma merged_entry_firebase:
  assumes "distinct (map jobId ls)" and "distinct (map jobId rs)"
    and "l \<in> set ls" and "r \<in> set rs" and "jobId l = jobId r"
  shows "{x \<in> set (mergeFirebase ls rs). jobId x = jobId l} = {overlay r l}"
proof -
  let ?s = "foldl fbSeed [] rs"
  let ?m = "foldl fbOverlay ?s ls"
  have k: "keyed ?m"
    by (intro keyed_foldl keyed_fbOverlay keyed_fbSeed keyed_Nil)
  have d: "distinct (map fst ?m)"
    by (intro distinct_foldl distinct_fbOverlay distinct_fbSeed) simp_all
  have "map_of ?s (jobId l) = Some r"
    using fbSeed_entry [OF assms(2) assms(4)] assms(5) by simp
  then have "map_of ?m (jobId l) = Some (overlay r l)"
    using fbOverlay_entry [OF assms(1) assms(3), of ?s] by simp
  from the_entry [OF k d this] show ?thesis
    by (simp add: mergeFirebase_def set_array_sort)
qed

lemma merged_entry_sheets:
  assumes "distinct (map jobId ls)" and "distinct (map jobId rs)"
    and "l \<in> set ls" and "r \<in> set rs" and "jobId l = jobId r" and "jobId l \<noteq> []"
  shows "{x \<in> set (mergeSheets ls rs). jobId x = jobId l} = {overlay r l}"
  unfolding mergeSheets_filter
  using assms by (intro merged_entry_firebase) (simp_all add: distinct_map_filter)

lemma negative_cmp:
  "isNum (createdAt x) \<Longrightarrow> isNum (createdAt y) \<Longrightarrow>
   negative (byCreatedAtDesc x y) \<longleftrightarrow> \<not> js_ge (createdAt y) (createdAt x)"
  by (cases "createdAt x"; cases "createdAt y") (auto simp: byCreatedAtDesc_def)

lemma js_ge_trans: "js_ge a b \<Longrightarrow> js_ge b c \<Longrightarrow> js_ge a c"
  by (cases a; cases b; cases c) auto

lemma js_ge_total: "isNum a \<Longrightarrow> isNum b \<Longrightarrow> js_ge a b \<or> js_ge b a"
  by (cases a; cases b) auto

lemma descending_insert:
  assumes "isNum (createdAt x)" and "\<forall>y \<in> set ys. isNum (createdAt y)" and "descending ys"
  shows "descending (sort_insert byCreatedAtDesc x ys)"
  using assms(2,3)
proof (induction ys)
  case Nil
  then show ?case by (simp add: descending_def)
next
  case (Cons y ys)
  have ny: "isNum (createdAt y)" using Cons.prems by simp
  show ?case
  proof (cases "negative (byCreatedAtDesc x y)")
    case True
    then have "js_ge (createdAt x) (createdAt y)"
      using negative_cmp [OF assms(1) ny] js_ge_total [OF assms(1) ny] by blast
    moreover have "\<forall>z \<in> set ys. js_ge (createdAt y) (createdAt z)"
      using Cons.prems by (simp add: descending_def)
    ultimately have "\<forall>z \<in> set (y # ys). js_ge (createdAt x) (createdAt z)"
      using js_ge_trans by auto
    with True Cons.prems show ?thesis by (simp add: descending_def)
  next
    case False
    then have "js_ge (createdAt y) (createdAt x)"
      using negative_cmp [OF assms(1) ny] by simp
    moreover have "descending (sort_insert byCreatedAtDesc x ys)"
      using Cons by (simp add: descending_def)
    ultimately show ?thesis
      using False Cons.prems by (simp add: descending_def set_sort_insert)
  qed
qed

lemma descending_foldl:
  "\<forall>y \<in> set acc \<union> set xs. isNum (createdAt y) \<Longrightarrow> descending acc \<Longrightarrow>
   descending (foldl (\<lambda>acc x. sort_insert byCreatedAtDesc x acc) acc xs)"
proof (induction xs arbitrary: acc)
  case Nil
  then show ?case by simp
next
  case (Cons x xs)
  have "descending (sort_insert byCreatedAtDesc x acc)"
    using Cons.prems by (intro descending_insert) auto
  moreover have "\<forall>y \<in> set (sort_insert byCreatedAtDesc x acc) \<union> set xs. isNum (createdAt y)"
    using Cons.prems by (auto simp: set_sort_insert)
  ultimately show ?case using Cons.IH by simp
qed

lemma descending_array_sort:
  "\<forall>y \<in> set xs. isNum (createdAt y) \<Longrightarrow> descending (array_sort byCreatedAtDesc xs)"
  using descending_foldl [of "[]" xs] by (simp add: array_sort_def descending_def)

lemma numbered_map_set:
  assumes "numbered m" and "isNum (createdAt v)"
  shows "numbered (map_set k v m)"
  unfolding numbered_def
proof
  fix p
  assume "p \<in> set (map_set k v m)"
  then have "p = (k, v) \<or> p \<in> set m"
    using set_map_set_sub by blast
  then show "isNum (createdAt (snd p))"
    using assms by (auto simp: numbered_def)
qed

lemma numbered_fbSeed: "numbered m \<Longrightarrow> isNum (createdAt r) \<Longrightarrow> numbered (fbSeed m r)"
  by (simp add: fbSeed_def numbered_map_set)

lemma numbered_fbOverlay: "numbered m \<Longrightarrow> isNum (createdAt l) \<Longrightarrow> numbered (fbOverlay m l)"
  by (simp add: fbOverlay_def numbered_map_set overlay_def split: option.splits)

lemma numbered_foldl_fbSeed:
  "numbered m \<Longrightarrow> \<forall>r \<in> set rs. isNum (createdAt r) \<Longrightarrow> numbered (foldl fbSeed m rs)"
  by (induction rs arbitrary: m) (simp_all add: numbered_fbSeed)

lemma numbered_foldl_fbOverlay:
  "numbered m \<Longrightarrow> \<forall>l \<in> set ls. isNum (createdAt l) \<Longrightarrow> numbered (foldl fbOverlay m ls)"
  by (induction ls arbitrary: m) (simp_all add: numbered_fbOverlay)

lemma descending_mergeFirebase:
  assumes "\<forall>j \<in> set ls \<union> set rs. isNum (createdAt j)"
  shows "descending (mergeFirebase ls rs)"
proof -
  have "numbered (foldl fbSeed [] rs)"
    using assms by (intro numbered_foldl_fbSeed) (simp_all add: numbered_def)
  then have "numbered (foldl fbOverlay (foldl fbSeed [] rs) ls)"
    using assms by (intro numbered_foldl_fbOverlay) simp_all
  then show ?thesis
    unfolding mergeFirebase_def
    by (intro descending_array_sort) (simp add: numbered_def map_values_def)
qed

text \<open>
  A list of two or more jobs that holds a \<open>NaN\<close> createdAt is descending in no order,
  whatever the sort does with it.
\<close>

lemma not_descending_NaN:
  assumes "j \<in> set xs" and "createdAt j = NaN" and "2 \<le> length xs"
  shows "\<not> descending xs"
proof
  assume d: "descending xs"
  from assms(1) obtain i where i: "i < length xs" "xs ! i = j"
    by (auto simp: in_set_conv_nth)
  from assms(3) i(1) obtain i' where i': "i' < length xs" "i' \<noteq> i"
    by (cases "i = 0") (auto intro: that [of 0] that [of 1])
  then consider "i < i'" | "i' < i" by linarith
  then show False
  proof cases
    case 1
    with d i' have "js_ge (createdAt (xs ! i)) (createdAt (xs ! i'))"
      by (simp add: descending_def sorted_wrt_iff_nth_less)
    with i assms(2) show False by simp
  next
    case 2
    with d i(1) have "js_ge (createdAt (xs ! i')) (createdAt (xs ! i))"
      by (simp add: descending_def sorted_wrt_iff_nth_less)
    with i assms(2) show False by (cases "createdAt (xs ! i')") simp_all
  qed
qed

section \<open>Claims about the merge step\<close>

text \<open>
  C1, as stated: the ids of the merged list are the ids of the local list together with
  the ids of the remote list, in both orchestrators. It fails in
  \<open>syncWithGoogleSheets\<close>, whose two loops skip every job with an empty id
  (\<open>if (job.id)\<close>, \<open>if (localJob.id)\<close>): a decoded row without an id is dropped.
\<close>

theorem merge_ids_counterexample:
  "jobId ` set (mergeSheets []
       [rowToJob stubEnv [Some [], Some ''2023-11-14T22:13:20.000Z'', Some ''Ingreso'',
                          Some ''1234ABC'']])
     \<noteq> jobId ` set [] \<union>
         jobId ` set [rowToJob stubEnv [Some [], Some ''2023-11-14T22:13:20.000Z'',
                                        Some ''Ingreso'', Some ''1234ABC'']]"
  by (simp add: mergeSheets_def shSeed_def rowToJob_def cell_def orDefault_def
      tryParseImages_def stubEnv_def map_values_def array_sort_def)

text \<open>
  C1, amended: the merge of \<open>syncWithFirebase\<close> yields exactly the union of the ids;
  the merge of \<open>syncWithGoogleSheets\<close> yields the union of the ids without the empty
  id.
\<close>

theorem merge_ids:
  "jobId ` set (mergeFirebase localJobs remoteJobs)
     = jobId ` set localJobs \<union> jobId ` set remoteJobs
   \<and> jobId ` set (mergeSheets localJobs remoteJobs)
     = (jobId ` set localJobs \<union> jobId ` set remoteJobs) - {[]}"
proof -
  have fb: "jobId ` set (mergeFirebase ls rs) = jobId ` set ls \<union> jobId ` set rs" for ls rs
  proof -
    let ?m = "foldl fbOverlay (foldl fbSeed [] rs) ls"
    have "keyed ?m"
      by (intro keyed_foldl keyed_fbOverlay keyed_fbSeed keyed_Nil)
    then have "jobId ` set (map_values ?m) = fst ` set ?m"
      by (rule keyed_ids)
    then show ?thesis
      by (auto simp add: mergeFirebase_def set_array_sort keys_foldl_fbOverlay
          keys_foldl_fbSeed)
  qed
  have "jobId ` set (mergeSheets localJobs remoteJobs)
      = (jobId ` set localJobs \<union> jobId ` set remoteJobs) - {[]}"
    unfolding mergeSheets_filter fb by auto
  with fb show ?thesis by simp
qed

text \<open>
  C2, as stated: for an id in both lists every field of the merged job other than the
  two image fields is the local job's. It fails for \<open>carDetails\<close>, the one optional
  field among them: the object spread \<open>{...rJob, ...lJob}\<close> copies only the keys the
  local object has, so a local job without \<open>carDetails\<close> keeps the remote one.
\<close>

theorem local_precedence_counterexample:
  "map carDetails
     (mergeFirebase [(createJob ''A'' 100 seat None)\<lparr>carDetails := Absent\<rparr>]
                    [createJob ''A'' 100 seat None])
     = [Present seat]
   \<and> carDetails ((createJob ''A'' 100 seat None)\<lparr>carDetails := Absent\<rparr>) \<noteq> Present seat"
  by (simp add: mergeFirebase_def fbSeed_def fbOverlay_def map_get_def overlay_def
      createJob_def map_values_def array_sort_def)

text \<open>
  C2, amended: with ids unique in each list, for a local job \<open>l\<close> and a remote job \<open>r\<close>
  of the same id (not empty, in \<open>syncWithGoogleSheets\<close>) the merged list holds exactly
  one job of that id; its id, createdAt, status, identifiedParts, manualNotes and
  repairType are those of \<open>l\<close>, and its carDetails is that of \<open>l\<close> when \<open>l\<close> has the
  key and that of \<open>r\<close> otherwise.
\<close>

theorem local_precedence:
  assumes "distinct (map jobId localJobs)" and "distinct (map jobId remoteJobs)"
    and "l \<in> set localJobs" and "r \<in> set remoteJobs" and "jobId l = jobId r"
  shows "(\<exists>m. {x \<in> set (mergeFirebase localJobs remoteJobs). jobId x = jobId l} = {m}
            \<and> jobId m = jobId l \<and> createdAt m = createdAt l \<and> status m = status l
            \<and> identifiedParts m = identifiedParts l \<and> manualNotes m = manualNotes l
            \<and> repairType m = repairType l
            \<and> carDetails m = (if hasOwn (carDetails l) then carDetails l else carDetails r))
       \<and> (jobId l \<noteq> [] \<longrightarrow>
           (\<exists>m. {x \<in> set (mergeSheets localJobs remoteJobs). jobId x = jobId l} = {m}
            \<and> jobId m = jobId l \<and> createdAt m = createdAt l \<and> status m = status l
            \<and> identifiedParts m = identifiedParts l \<and> manualNotes m = manualNotes l
            \<and> repairType m = repairType l
            \<and> carDetails m = (if hasOwn (carDetails l) then carDetails l else carDetails r)))"
proof (intro conjI impI)
  show "\<exists>m. {x \<in> set (mergeFirebase localJobs remoteJobs). jobId x = jobId l} = {m}
            \<and> jobId m = jobId l \<and> createdAt m = createdAt l \<and> status m = status l
            \<and> identifiedParts m = identifiedParts l \<and> manualNotes m = manualNotes l
            \<and> repairType m = repairType l
            \<and> carDetails m = (if hasOwn (carDetails l) then carDetails l else carDetails r)"
    using merged_entry_firebase [OF assms] by (intro exI [of _ "overlay r l"]) (simp add: overlay_def)
next
  assume "jobId l \<noteq> []"
  with merged_entry_sheets [OF assms]
  show "\<exists>m. {x \<in> set (mergeSheets localJobs remoteJobs). jobId x = jobId l} = {m}
            \<and> jobId m = jobId l \<and> createdAt m = createdAt l \<and> status m = status l
            \<and> identifiedParts m = identifiedParts l \<and> manualNotes m = manualNotes l
            \<and> repairType m = repairType l
            \<and> carDetails m = (if hasOwn (carDetails l) then carDetails l else carDetails r)"
    by (intro exI [of _ "overlay r l"]) (simp add: overlay_def)
qed

theorem local_precedence_witness:
  "distinct (map jobId [(createJob ''A'' 100 seat None)\<lparr>manualNotes := ''x''\<rparr>])
   \<and> distinct (map jobId [(createJob ''A'' 100 seat None)\<lparr>manualNotes := ''y''\<rparr>])
   \<and> jobId ((createJob ''A'' 100 seat None)\<lparr>manualNotes := ''x''\<rparr>) \<noteq> []
   \<and> (\<exists>m. {x \<in> set (mergeSheets [(createJob ''A'' 100 seat None)\<lparr>manualNotes := ''x''\<rparr>]
                                 [(createJob ''A'' 100 seat None)\<lparr>manualNotes := ''y''\<rparr>]).
             jobId x = ''A''} = {m}
          \<and> manualNotes m = ''x'')
   \<and> (\<exists>m. {x \<in> set (mergeFirebase [(createJob ''A'' 100 seat None)\<lparr>manualNotes := ''x''\<rparr>]
                                   [(createJob ''A'' 100 seat None)\<lparr>manualNotes := ''y''\<rparr>]).
             jobId x = ''A''} = {m}
          \<and> manualNotes m = ''x'')"
  using local_precedence [of "[(createJob ''A'' 100 seat None)\<lparr>manualNotes := ''x''\<rparr>]"
      "[(createJob ''A'' 100 seat None)\<lparr>manualNotes := ''y''\<rparr>]"
      "(createJob ''A'' 100 seat None)\<lparr>manualNotes := ''x''\<rparr>"
      "(createJob ''A'' 100 seat None)\<lparr>manualNotes := ''y''\<rparr>"]
  by (simp add: createJob_def) blast

text \<open>
  C3, as stated: for an id in both lists the merged intakeImage is the local one when it
  is present and the remote one otherwise, and the merged damageImages is the local
  list when it is not empty and the remote one otherwise. The first half fails for a
  local intakeImage that is present and empty: \<open>lJob.intakeImage || rJob.intakeImage\<close>
  tests truthiness, and the empty string is falsy.
\<close>

theorem image_fallback_counterexample:
  "map intakeImage
     (mergeFirebase [(createJob ''A'' 100 seat None)\<lparr>intakeImage := Present []\<rparr>]
                    [createJob ''A'' 100 seat (Some ''abc'')])
     = [Present ''abc'']
   \<and> intakeImage ((createJob ''A'' 100 seat None)\<lparr>intakeImage := Present []\<rparr>) = Present []"
  by (simp add: mergeFirebase_def fbSeed_def fbOverlay_def map_get_def overlay_def
      createJob_def map_values_def array_sort_def js_or_def)

text \<open>
  C3, amended: with ids unique in each list, for a local job \<open>l\<close> and a remote job \<open>r\<close>
  of the same id (not empty, in \<open>syncWithGoogleSheets\<close>) the one merged job of that id
  has the intakeImage of \<open>l\<close> when that is a non-empty string and the intakeImage of
  \<open>r\<close> otherwise, and the damageImages of \<open>l\<close> when that is a non-empty list and the
  damageImages of \<open>r\<close> otherwise.
\<close>

theorem image_fallback:
  assumes "distinct (map jobId localJobs)" and "distinct (map jobId remoteJobs)"
    and "l \<in> set localJobs" and "r \<in> set remoteJobs" and "jobId l = jobId r"
  shows "(\<exists>m. {x \<in> set (mergeFirebase localJobs remoteJobs). jobId x = jobId l} = {m}
            \<and> rd (intakeImage m) =
                (if truthy (rd (intakeImage l)) then rd (intakeImage l) else rd (intakeImage r))
            \<and> rd (damageImages m) =
                (if nonEmptyArray (rd (damageImages l)) then rd (damageImages l)
                 else rd (damageImages r)))
       \<and> (jobId l \<noteq> [] \<longrightarrow>
           (\<exists>m. {x \<in> set (mergeSheets localJobs remoteJobs). jobId x = jobId l} = {m}
            \<and> rd (intakeImage m) =
                (if truthy (rd (intakeImage l)) then rd (intakeImage l) else rd (intakeImage r))
            \<and> rd (damageImages m) =
                (if nonEmptyArray (rd (damageImages l)) then rd (damageImages l)
                 else rd (damageImages r))))"
proof -
  have rd_ofValue: "rd (ofValue v) = v" for v :: "'a option"
    by (cases v) simp_all
  have img: "rd (intakeImage (overlay r l)) =
      (if truthy (rd (intakeImage l)) then rd (intakeImage l) else rd (intakeImage r))"
    by (simp add: overlay_def js_or_def rd_ofValue)
  have dmg: "rd (damageImages (overlay r l)) =
      (if nonEmptyArray (rd (damageImages l)) then rd (damageImages l)
       else rd (damageImages r))"
    by (simp add: overlay_def rd_ofValue)
  show ?thesis
  proof (intro conjI impI)
    show "\<exists>m. {x \<in> set (mergeFirebase localJobs remoteJobs). jobId x = jobId l} = {m}
            \<and> rd (intakeImage m) =
                (if truthy (rd (intakeImage l)) then rd (intakeImage l) else rd (intakeImage r))
            \<and> rd (damageImages m) =
                (if nonEmptyArray (rd (damageImages l)) then rd (damageImages l)
                 else rd (damageImages r))"
      using merged_entry_firebase [OF assms] img dmg by (intro exI [of _ "overlay r l"]) simp
  next
    assume "jobId l \<noteq> []"
    with merged_entry_sheets [OF assms]
    show "\<exists>m. {x \<in> set (mergeSheets localJobs remoteJobs). jobId x = jobId l} = {m}
            \<and> rd (intakeImage m) =
                (if truthy (rd (intakeImage l)) then rd (intakeImage l) else rd (intakeImage r))
            \<and> rd (damageImages m) =
                (if nonEmptyArray (rd (damageImages l)) then rd (damageImages l)
                 else rd (damageImages r))"
      using img dmg by (intro exI [of _ "overlay r l"]) simp
  qed
qed

text \<open>
  The two cases of the specification at one input: a local job with no damage images
  keeps the three remote ones, and the remote intake image is kept when the local job
  has none.
\<close>

theorem image_fallback_witness:
  "distinct (map jobId [createJob ''A'' 100 seat None])
   \<and> distinct (map jobId [(createJob ''A'' 100 seat (Some ''in''))
                            \<lparr>damageImages := Present [''i1'', ''i2'', ''i3'']\<rparr>])
   \<and> jobId (createJob ''A'' 100 seat None) \<noteq> []
   \<and> (\<exists>m. {x \<in> set (mergeFirebase [createJob ''A'' 100 seat None]
               [(createJob ''A'' 100 seat (Some ''in''))
                  \<lparr>damageImages := Present [''i1'', ''i2'', ''i3'']\<rparr>]). jobId x = ''A''} = {m}
          \<and> rd (intakeImage m) = Some ''in''
          \<and> rd (damageImages m) = Some [''i1'', ''i2'', ''i3''])
   \<and> (\<exists>m. {x \<in> set (mergeSheets [createJob ''A'' 100 seat None]
               [(createJob ''A'' 100 seat (Some ''in''))
                  \<lparr>damageImages := Present [''i1'', ''i2'', ''i3'']\<rparr>]). jobId x = ''A''} = {m}
          \<and> rd (intakeImage m) = Some ''in''
          \<and> rd (damageImages m) = Some [''i1'', ''i2'', ''i3''])"
  using image_fallback [of "[createJob ''A'' 100 seat None]"
      "[(createJob ''A'' 100 seat (Some ''in''))
          \<lparr>damageImages := Present [''i1'', ''i2'', ''i3'']\<rparr>]"
      "createJob ''A'' 100 seat None"
      "(createJob ''A'' 100 seat (Some ''in''))
          \<lparr>damageImages := Present [''i1'', ''i2'', ''i3'']\<rparr>"]
  by (simp add: createJob_def js_or_def)

text \<open>
  C4, as stated: the merged list is sorted by createdAt, descending, for all inputs. A
  createdAt can be \<open>NaN\<close> (\<open>rowToJob\<close> yields it for a date cell that is not a date):
  then \<open>b.createdAt - a.createdAt\<close> is \<open>NaN\<close>, the sort takes it for zero, and no
  order of the list is descending, since \<open>NaN\<close> compares with nothing.
\<close>

theorem sort_order_counterexample:
  "\<not> descending
       (mergeSheets []
          [rowToJob stubEnv [Some ''A'', Some ''ayer''],
           rowToJob stubEnv [Some ''B'', Some ''2023-11-14T22:13:20.000Z'']])"
  by (simp add: mergeSheets_def shSeed_def rowToJob_def cell_def orDefault_def
      tryParseImages_def stubEnv_def map_values_def array_sort_def byCreatedAtDesc_def
      descending_def)

text \<open>
  C4, amended: when the createdAt of every local and remote job is a number (not
  \<open>NaN\<close>), the merged list of either orchestrator is sorted by createdAt, descending.
\<close>

theorem sort_order:
  assumes "\<forall>j \<in> set localJobs \<union> set remoteJobs. isNum (createdAt j)"
  shows "descending (mergeFirebase localJobs remoteJobs)
       \<and> descending (mergeSheets localJobs remoteJobs)"
proof
  show "descending (mergeFirebase localJobs remoteJobs)"
    using assms by (rule descending_mergeFirebase)
  show "descending (mergeSheets localJobs remoteJobs)"
    unfolding mergeSheets_filter using assms by (intro descending_mergeFirebase) auto
qed

theorem sort_order_witness:
  "isNum (createdAt (createJob ''A'' 100 seat None))
   \<and> isNum (createdAt (createJob ''B'' 300 seat None))
   \<and> isNum (createdAt (createJob ''C'' 200 seat None))
   \<and> descending (mergeFirebase [createJob ''A'' 100 seat None, createJob ''B'' 300 seat None]
                                [createJob ''C'' 200 seat None])
   \<and> map jobId (mergeFirebase [createJob ''A'' 100 seat None, createJob ''B'' 300 seat None]
                               [createJob ''C'' 200 seat None]) = [''B'', ''C'', ''A'']"
  using sort_order [of "[createJob ''A'' 100 seat None, createJob ''B'' 300 seat None]"
      "[createJob ''C'' 200 seat None]"]
  by (simp add: createJob_def mergeFirebase_def fbSeed_def fbOverlay_def map_get_def
      map_values_def array_sort_def byCreatedAtDesc_def)

section \<open>Facts about the row codec\<close>

lemma split_no_comma: "CHR '','' \<notin> set p \<Longrightarrow> split_comma_space p = [p]"
  by (induction p rule: split_comma_space.induct) (auto split: list.splits)

lemma split_append:
  "CHR '','' \<notin> set p \<Longrightarrow> split_comma_space (p @ '', '' @ rest) = p # split_comma_space rest"
proof (induction p)
  case Nil
  then show ?case by simp
next
  case (Cons c p)
  then have c: "c \<noteq> CHR '',''" and p: "CHR '','' \<notin> set p" by auto
  obtain d ds where e: "p @ '', '' @ rest = d # ds" by (cases "p @ '', '' @ rest") auto
  from c e Cons.IH [OF p] show ?case by simp
qed

lemma join_Cons: "ps \<noteq> [] \<Longrightarrow> join sep (p # ps) = p @ sep @ join sep ps"
  by (cases ps) simp_all

lemma split_join:
  "ps \<noteq> [] \<Longrightarrow> \<forall>p \<in> set ps. CHR '','' \<notin> set p \<Longrightarrow>
   split_comma_space (join '', '' ps) = ps"
proof (induction ps)
  case Nil
  then show ?case by simp
next
  case (Cons p ps)
  show ?case
  proof (cases "ps = []")
    case True
    with Cons.prems show ?thesis by (simp add: split_no_comma)
  next
    case False
    with Cons show ?thesis by (simp add: join_Cons split_append del: append.simps)
  qed
qed

lemma join_empty: "join '', '' ps = [] \<longleftrightarrow> ps = [] \<or> ps = [[]]"
proof (cases ps)
  case Nil
  then show ?thesis by simp
next
  case (Cons p qs)
  then show ?thesis by (cases qs) simp_all
qed

lemma parts_round_trip:
  assumes "\<forall>p \<in> set ps. CHR '','' \<notin> set p" and "ps \<noteq> [[]]"
  shows "(if join '', '' ps \<noteq> [] then split_comma_space (join '', '' ps) else []) = ps"
proof (cases "join '', '' ps = []")
  case True
  with assms(2) show ?thesis by (simp add: join_empty)
next
  case False
  then have "ps \<noteq> []" by auto
  with False assms(1) show ?thesis by (simp add: split_join)
qed

lemma orDefault_Some: "orDefault (Some s) [] = s"
  by (simp add: orDefault_def)

lemma orDefault_nonempty: "s \<noteq> [] \<Longrightarrow> orDefault (Some s) d = s"
  by (simp add: orDefault_def)

lemma orDefault_falsy: "\<not> truthy x \<Longrightarrow> orDefault x d = d"
  by (cases x) (simp_all add: orDefault_def)

lemma rowToJob_sel:
  "jobId (rowToJob env r) = orDefault (cell r 0) []"
  "createdAt (rowToJob env r) =
     Date_parse env (orDefault (cell r 1) (isoText env (Date_now env)))"
  "status (rowToJob env r) = orDefault (cell r 2) JobStatus_INTAKE"
  "carDetails (rowToJob env r) =
     Present \<lparr>plate = orDefault (cell r 3) [], make' = orDefault (cell r 4) [],
               model = orDefault (cell r 5) [], year = Absent, color = Absent\<rparr>"
  "repairType (rowToJob env r) = orDefault (cell r 6) ''AMBOS''"
  "identifiedParts (rowToJob env r) =
     (if orDefault (cell r 7) [] \<noteq> [] then split_comma_space (orDefault (cell r 7) [])
      else [])"
  "manualNotes (rowToJob env r) = orDefault (cell r 8) []"
  "intakeImage (rowToJob env r) =
     ofValue (fst (snd (tryParseImages env (orDefault (cell r 9) ''[]'')
                          (orDefault (cell r 10) ''[]''))))"
  "damageImages (rowToJob env r) =
     Present (snd (snd (tryParseImages env (orDefault (cell r 9) ''[]'')
                          (orDefault (cell r 10) ''[]''))))"
  by (simp_all add: rowToJob_def Let_def split: prod.splits)

section \<open>Claims about the row codec\<close>

text \<open>
  C5, as stated: for every job, decoding its row gives back all text fields, empties the
  images, and gives back the identified parts whenever no part contains a comma. It
  fails on a job whose only part is the empty string (the joined cell is empty and
  decodes to no parts) and on \<open>year\<close> and \<open>color\<close> of carDetails, for which a row has
  no cell.
\<close>

theorem row_round_trip_counterexample:
  "roundTrip stubEnv
     ((createJob ''A'' 1700000000000 (seat\<lparr>year := Present ''2020''\<rparr>) (Some ''img''))
        \<lparr>identifiedParts := [[]]\<rparr>)
     = Inr (createJob ''A'' 1700000000000 seat None)
   \<and> identifiedParts (createJob ''A'' 1700000000000 seat None) = []
   \<and> year seat = Absent"
  by (simp add: roundTrip_def jobToRow_def toISOString_def validTime_def rowToJob_def
      cell_def tryParseImages_def orDefault_def carText_def createJob_def stubEnv_def
      seat_def js_or_def JobStatus_INTAKE_def)

text \<open>
  C5, amended: for every job whose createdAt is a valid time value and whose status
  and repairType are not empty (as their types say), given that \<open>JSON.parse\<close> reads
  \<open>[]\<close> as the empty array, \<open>jobToRow\<close> yields a row and decoding it gives a job with
  the same id, status, repairType and manualNotes; with the plate, make and model of
  the job's carDetails (empty strings when the job has none) and neither year nor
  color; with no intake image and an empty list of damage images; and with the same
  identifiedParts, in the same order, whenever no part contains a comma and the parts
  are not the single empty string.
\<close>

theorem row_round_trip:
  assumes "createdAt job = Num t" and "validTime t"
    and "JSON_parse env ''[]'' = Some (JArray [])"
    and "status job \<noteq> []" and "repairType job \<noteq> []"
  shows "\<exists>job'. roundTrip env job = Inr job'
           \<and> jobId job' = jobId job \<and> status job' = status job
           \<and> repairType job' = repairType job \<and> manualNotes job' = manualNotes job
           \<and> carDetails job' =
               (case rd (carDetails job) of
                  Some c \<Rightarrow> Present (c\<lparr>year := Absent, color := Absent\<rparr>)
                | None \<Rightarrow> Present \<lparr>plate = [], make' = [], model = [],
                                     year = Absent, color = Absent\<rparr>)
           \<and> intakeImage job' = Undefined \<and> damageImages job' = Present []
           \<and> ((\<forall>p \<in> set (identifiedParts job). CHR '','' \<notin> set p)
                \<and> identifiedParts job \<noteq> [[]]
                \<longrightarrow> identifiedParts job' = identifiedParts job)"
proof -
  define r where "r =
    [Some (jobId job), Some (isoText env t), Some (status job), Some (carText job plate),
     Some (carText job make'), Some (carText job model), Some (repairType job),
     Some (join '', '' (identifiedParts job)), Some (manualNotes job), Some ''[]'',
     Some ''[]'']"
  have row: "jobToRow env job = Inr r"
    by (simp add: jobToRow_def toISOString_def assms(1,2) r_def orDefault_Some)
  have cells: "cell r 0 = Some (jobId job)" "cell r 2 = Some (status job)"
    "cell r 3 = Some (carText job plate)" "cell r 4 = Some (carText job make')"
    "cell r 5 = Some (carText job model)" "cell r 6 = Some (repairType job)"
    "cell r 7 = Some (join '', '' (identifiedParts job))" "cell r 8 = Some (manualNotes job)"
    "cell r 9 = Some ''[]''" "cell r 10 = Some ''[]''"
    by (simp_all add: cell_def r_def)
  have images: "tryParseImages env ''[]'' ''[]'' = (None, None, [])"
    by (simp add: tryParseImages_def assms(3))
  have car: "Present \<lparr>plate = carText job plate, make' = carText job make',
                 model = carText job model, year = Absent, color = Absent\<rparr> =
      (case rd (carDetails job) of
         Some c \<Rightarrow> Present (c\<lparr>year := Absent, color := Absent\<rparr>)
       | None \<Rightarrow> Present \<lparr>plate = [], make' = [], model = [], year = Absent, color = Absent\<rparr>)"
    by (cases "rd (carDetails job)") (simp_all add: carText_def orDefault_def)
  have decoded: "rowToJob env r =
      \<lparr> jobId = jobId job,
        createdAt = Date_parse env (orDefault (cell r 1) (isoText env (Date_now env))),
        status = status job,
        carDetails = Present \<lparr>plate = carText job plate, make' = carText job make',
                       model = carText job model, year = Absent, color = Absent\<rparr>,
        intakeImage = Undefined,
        damageImages = Present [],
        identifiedParts =
          (if join '', '' (identifiedParts job) \<noteq> []
           then split_comma_space (join '', '' (identifiedParts job)) else []),
        manualNotes = manualNotes job,
        repairType = repairType job \<rparr>"
    by (simp add: rowToJob_def cells images orDefault_Some orDefault_nonempty assms(4,5))
  show ?thesis
    by (rule exI [of _ "rowToJob env r"])
       (simp add: roundTrip_def row decoded car parts_round_trip)
qed

theorem row_round_trip_witness:
  "createdAt ((createJob ''A'' 1700000000000 (seat\<lparr>year := Present ''2020''\<rparr>) (Some ''img''))
      \<lparr>identifiedParts := [''Capo'', ''Puerta delantera''], manualNotes := ''golpe''\<rparr>)
     = Num 1700000000000
   \<and> validTime 1700000000000
   \<and> JSON_parse stubEnv ''[]'' = Some (JArray [])
   \<and> roundTrip stubEnv
       ((createJob ''A'' 1700000000000 (seat\<lparr>year := Present ''2020''\<rparr>) (Some ''img''))
          \<lparr>identifiedParts := [''Capo'', ''Puerta delantera''], manualNotes := ''golpe''\<rparr>)
     = Inr ((createJob ''A'' 1700000000000 seat None)
          \<lparr>identifiedParts := [''Capo'', ''Puerta delantera''], manualNotes := ''golpe''\<rparr>)"
  using row_round_trip [of
      "(createJob ''A'' 1700000000000 (seat\<lparr>year := Present ''2020''\<rparr>) (Some ''img''))
          \<lparr>identifiedParts := [''Capo'', ''Puerta delantera''], manualNotes := ''golpe''\<rparr>"
      1700000000000 stubEnv]
  by (simp add: roundTrip_def jobToRow_def toISOString_def validTime_def rowToJob_def
      cell_def tryParseImages_def orDefault_def carText_def createJob_def stubEnv_def
      seat_def js_or_def JobStatus_INTAKE_def)

text \<open>
  C6: \<open>rowToJob\<close> never raises and puts the documented defaults in place of what is
  malformed, the current time for a date cell that cannot be parsed among them. The
  code misses that case. For a date cell that is missing or empty it takes the current
  time, and a bad image cell is caught and replaced; but a date cell that holds a text
  that is no date is kept by \<open>row[1] || ...\<close>, and \<open>new Date(dateStr).getTime()\<close> is
  \<open>NaN\<close>. The job it returns cannot be encoded again: \<open>jobToRow\<close> raises on it.
\<close>

theorem soft_failure_bad_date:
  "createdAt (rowToJob stubEnv [Some ''A'', Some ''ayer'']) = NaN
   \<and> createdAt (rowToJob stubEnv [Some ''A'', Some []]) = Num (Date_now stubEnv)
   \<and> createdAt (rowToJob stubEnv [Some ''A'']) = Num (Date_now stubEnv)
   \<and> jobToRow stubEnv (rowToJob stubEnv [Some ''A'', Some ''ayer'']) = Inl RangeError"
  by (simp add: rowToJob_sel jobToRow_def toISOString_def cell_def orDefault_def stubEnv_def)

text \<open>
  What follows in \<open>syncWithGoogleSheets\<close> when the sheet holds such a row: the rows are
  cleared, then encoding the merged jobs raises, and nothing is written back.
\<close>

lemma bad_date_sync:
  "fst (syncWithGoogleSheets stubEnv [] sheetSettings
          (sheetHolding [[Some ''A'', Some ''ayer'']])) = Inl RangeError
   \<and> requests (snd (syncWithGoogleSheets stubEnv [] sheetSettings
          (sheetHolding [[Some ''A'', Some ''ayer'']]))) = [GetMeta, GetValues, ClearRows]"
proof -
  have j: "jobId (rowToJob stubEnv [Some ''A'', Some ''ayer'']) = ''A''"
    by (simp add: rowToJob_sel cell_def orDefault_def)
  have e: "jobToRow stubEnv (rowToJob stubEnv [Some ''A'', Some ''ayer'']) = Inl RangeError"
    by (simp add: rowToJob_sel jobToRow_def toISOString_def cell_def orDefault_def stubEnv_def)
  have m: "mergeSheets [] [rowToJob stubEnv [Some ''A'', Some ''ayer'']]
      = [rowToJob stubEnv [Some ''A'', Some ''ayer'']]"
    by (simp add: mergeSheets_def shSeed_def j map_values_def array_sort_def)
  show ?thesis
    by (simp add: syncWithGoogleSheets_def sheetSettings_def ensureSheetExists_def
        fetchSheetJobs_def fetch_def sheetHolding_def m e)
qed

section \<open>Facts about the document store orchestrator\<close>

lemma prepare_frame:
  "\<exists>h'. prepareJobForCloud br h job = (length h, h') \<and> take (length h) h' = h
        \<and> length h' = Suc (length h)"
  by (simp add: prepareJobForCloud_def allocate_def Let_def split: option.splits)

lemma prepare_value:
  assumes "prepareJobForCloud br h job = (p, h')"
  shows "h' ! p = (h ! job)
    \<lparr>intakeImage :=
        (case rd (intakeImage (h ! job)) of
           Some img \<Rightarrow> if img \<noteq> [] then Present (compressDefault br img)
                       else intakeImage (h ! job)
         | None \<Rightarrow> intakeImage (h ! job)),
      damageImages :=
        (case rd (damageImages (h ! job)) of
           Some imgs \<Rightarrow> if imgs \<noteq> [] then Present (map (compressDefault br) imgs)
                        else damageImages (h ! job)
         | None \<Rightarrow> damageImages (h ! job))\<rparr>"
  using assms
  by (auto simp: prepareJobForCloud_def allocate_def Let_def split: option.splits)

lemma clean_prepared:
  "cleanData (j
    \<lparr>intakeImage :=
        (case rd (intakeImage j) of
           Some img \<Rightarrow> if img \<noteq> [] then Present (compressDefault br img)
                       else intakeImage j
         | None \<Rightarrow> intakeImage j),
      damageImages :=
        (case rd (damageImages j) of
           Some imgs \<Rightarrow> if imgs \<noteq> [] then Present (map (compressDefault br) imgs)
                        else damageImages j
         | None \<Rightarrow> damageImages j)\<rparr>) = writtenDoc br j"
proof -
  have car: "map_option cleanCar x =
      map_option (\<lambda>c. \<lparr> docPlate = plate c, docMake = make' c, docModel = model c,
                           docYear = rd (year c), docColor = rd (color c) \<rparr>) x" for x
    by (cases x) (simp_all add: cleanCar_def)
  show ?thesis
    by (cases "rd (intakeImage j)"; cases "rd (damageImages j)")
       (simp_all add: cleanData_def writtenDoc_def car)
qed

lemma prepare_doc:
  assumes "prepareJobForCloud br h job = (p, h')"
  shows "cleanData (h' ! p) = writtenDoc br (h ! job)"
  unfolding prepare_value [OF assms] by (rule clean_prepared)

lemma saveLoop_frame:
  assumes "\<forall>r \<in> set refs. r < length h0" and "take (length h0) h = h0"
    and "\<forall>r \<in> set refs. accepts (jobId (h0 ! r))"
  shows "\<exists>h'. saveLoop br accepts refs h batch k =
             Inr (h', batch @ map (\<lambda>r. (jobId (h0 ! r), writtenDoc br (h0 ! r))) refs,
                  k + length refs)
           \<and> take (length h0) h' = h0"
  using assms
proof (induction refs arbitrary: h batch k)
  case Nil
  then show ?case by simp
next
  case (Cons r refs)
  from Cons.prems have r: "r < length h0" and a: "accepts (jobId (h0 ! r))" by simp_all
  have "length (take (length h0) h) = length h0"
    using Cons.prems(2) by simp
  then have len: "length h0 \<le> length h" by simp
  have old: "h ! r = h0 ! r"
    using r Cons.prems(2) by (metis nth_take)
  obtain h1 where p: "prepareJobForCloud br h r = (length h, h1)"
    and t: "take (length h) h1 = h"
    using prepare_frame by blast
  have d: "cleanData (h1 ! length h) = writtenDoc br (h0 ! r)"
    using prepare_doc [OF p] old by simp
  have t0: "take (length h0) h1 = h0"
    using t len Cons.prems(2) by (metis min.absorb1 take_take)
  from Cons.IH [OF _ t0, of "batch @ [(jobId (h0 ! r), writtenDoc br (h0 ! r))]" "Suc k"]
    Cons.prems
  obtain h' where
    s: "saveLoop br accepts refs h1 (batch @ [(jobId (h0 ! r), writtenDoc br (h0 ! r))]) (Suc k)
          = Inr (h', (batch @ [(jobId (h0 ! r), writtenDoc br (h0 ! r))])
                       @ map (\<lambda>r. (jobId (h0 ! r), writtenDoc br (h0 ! r))) refs,
                 Suc k + length refs)"
    and f: "take (length h0) h' = h0"
    by auto
  show ?case
    by (rule exI [of _ h']) (simp add: a old p d s f)
qed

lemma saveLoop_rejected:
  assumes "\<forall>r \<in> set refs. r < length h0" and "take (length h0) h = h0"
    and "\<exists>r \<in> set refs. \<not> accepts (jobId (h0 ! r))"
  shows "saveLoop br accepts refs h batch k = Inl BackendError"
  using assms
proof (induction refs arbitrary: h batch k)
  case Nil
  then show ?case by simp
next
  case (Cons r refs)
  from Cons.prems have r: "r < length h0" by simp
  have "length (take (length h0) h) = length h0"
    using Cons.prems(2) by simp
  then have len: "length h0 \<le> length h" by simp
  have old: "h ! r = h0 ! r"
    using r Cons.prems(2) by (metis nth_take)
  show ?case
  proof (cases "accepts (jobId (h0 ! r))")
    case False
    then show ?thesis by (simp add: old)
  next
    case True
    with Cons.prems(3) have rest: "\<exists>r \<in> set refs. \<not> accepts (jobId (h0 ! r))" by auto
    obtain h1 where p: "prepareJobForCloud br h r = (length h, h1)"
      and t: "take (length h) h1 = h"
      using prepare_frame by blast
    have t0: "take (length h0) h1 = h0"
      using t len Cons.prems(2) by (metis min.absorb1 take_take)
    from Cons.IH [OF _ t0 rest] Cons.prems(1) True old p show ?thesis by simp
  qed
qed

lemma map_nth_take: "n \<le> length h \<Longrightarrow> map (\<lambda>i. h ! i) [0..<n] = take n h"
  by (simp add: list_eq_iff_nth_eq)

lemma map_take_upt: "map (\<lambda>r. f (h ! r)) (take n [0..<length h]) = map f (take n h)"
proof -
  have "map (\<lambda>r. f (h ! r)) (take n [0..<length h])
      = take n (map f (map (\<lambda>r. h ! r) [0..<length h]))"
    by (simp add: take_map)
  also have "\<dots> = map f (take n h)"
    by (simp only: map_nth take_map)
  finally show ?thesis .
qed

lemma take_upt_refs:
  assumes "\<forall>j \<in> set (take n xs). P j" and "r \<in> set (take n [0..<length xs])"
  shows "P (xs ! r)"
proof -
  from assms(2) obtain i where "i < length (take n [0..<length xs])"
    and "take n [0..<length xs] ! i = r"
    by (auto simp: in_set_conv_nth)
  then have "r < n" and "r < length xs" by auto
  then have "take n xs ! r = xs ! r" and "r < length (take n xs)" by auto
  then have "xs ! r \<in> set (take n xs)" by (metis nth_mem)
  with assms(1) show ?thesis by blast
qed

lemma sync_result:
  assumes "firebaseConfig settings = Some c" and "apiKey c \<noteq> []"
    and "snapshot fs = Inr remoteJobs"
    and "\<forall>j \<in> set (take 450 (mergeFirebase localJobs remoteJobs)). acceptsId fs (jobId j)"
  shows "syncWithFirebase br localJobs settings fs =
           (if mergeFirebase localJobs remoteJobs = []
            then (Inr (mergeFirebase localJobs remoteJobs), fs\<lparr>calls := calls fs @ [GetDocs]\<rparr>)
            else ((case commitAnswer fs of
                     None \<Rightarrow> Inr (mergeFirebase localJobs remoteJobs)
                   | Some e \<Rightarrow> Inl e),
                  fs\<lparr>calls := calls fs @
                     [GetDocs,
                      Commit (map (\<lambda>j. (jobId j, writtenDoc br j))
                                (take 450 (mergeFirebase localJobs remoteJobs)))]\<rparr>))"
proof -
  let ?h0 = "mergeFirebase localJobs remoteJobs"
  let ?refs = "take 450 [0..<length ?h0]"
  have docs: "map (\<lambda>r. (jobId (?h0 ! r), writtenDoc br (?h0 ! r))) ?refs
      = map (\<lambda>j. (jobId j, writtenDoc br j)) (take 450 ?h0)"
    by (rule map_take_upt)
  have acc: "\<forall>r \<in> set ?refs. acceptsId fs (jobId (?h0 ! r))"
    using take_upt_refs [OF assms(4)] by blast
  have "\<forall>r \<in> set ?refs. r < length ?h0"
    by (auto dest: in_set_takeD)
  from saveLoop_frame [OF this _ acc, of ?h0 br "[]" 0]
  obtain h' where s: "saveLoop br (acceptsId fs) ?refs ?h0 [] 0 =
        Inr (h', map (\<lambda>r. (jobId (?h0 ! r), writtenDoc br (?h0 ! r))) ?refs, length ?refs)"
    and f: "take (length ?h0) h' = ?h0"
    by auto
  have "length (take (length ?h0) h') = length ?h0"
    using f by simp
  then have "length ?h0 \<le> length h'" by simp
  then have same: "map (\<lambda>job. h' ! job) [0..<length ?h0] = ?h0"
    using f by (simp add: map_nth_take)
  have e: "length ?refs = 0 \<longleftrightarrow> ?h0 = []"
    by (cases ?h0) simp_all
  show ?thesis
    by (simp add: syncWithFirebase_def assms(1,2,3) getDocs_def commit_def s same docs e
         Let_def del: length_0_conv split: option.splits)
qed

lemma refs_take_upt:
  assumes "\<forall>r \<in> set (take n [0..<length xs]). P (xs ! r)" and "j \<in> set (take n xs)"
  shows "P j"
proof -
  from assms(2) obtain i where i: "i < length (take n xs)" and j: "take n xs ! i = j"
    by (auto simp: in_set_conv_nth)
  then have "i < n" and "i < length xs" by auto
  then have "take n [0..<length xs] ! i = i" and "i < length (take n [0..<length xs])"
    by auto
  then have "i \<in> set (take n [0..<length xs])" by (metis nth_mem)
  with assms(1) have "P (xs ! i)" by blast
  with i j show ?thesis by simp
qed

lemma sync_rejected:
  assumes "firebaseConfig settings = Some c" and "apiKey c \<noteq> []"
    and "snapshot fs = Inr remoteJobs"
    and "\<exists>j \<in> set (take 450 (mergeFirebase localJobs remoteJobs)). \<not> acceptsId fs (jobId j)"
  shows "syncWithFirebase br localJobs settings fs =
           (Inl BackendError, fs\<lparr>calls := calls fs @ [GetDocs]\<rparr>)"
proof -
  let ?h0 = "mergeFirebase localJobs remoteJobs"
  let ?refs = "take 450 [0..<length ?h0]"
  have "\<exists>r \<in> set ?refs. \<not> acceptsId fs (jobId (?h0 ! r))"
  proof (rule ccontr)
    assume "\<not> (\<exists>r \<in> set ?refs. \<not> acceptsId fs (jobId (?h0 ! r)))"
    then have "\<forall>r \<in> set ?refs. acceptsId fs (jobId (?h0 ! r))" by blast
    then have "\<forall>j \<in> set (take 450 ?h0). acceptsId fs (jobId j)"
      using refs_take_upt [of 450 ?h0 "\<lambda>j. acceptsId fs (jobId j)"] by blast
    with assms(4) show False by blast
  qed
  moreover have "\<forall>r \<in> set ?refs. r < length ?h0"
    by (auto dest: in_set_takeD)
  ultimately have "saveLoop br (acceptsId fs) ?refs ?h0 [] 0 = Inl BackendError"
    using saveLoop_rejected [of ?refs ?h0 ?h0] by simp
  then show ?thesis
    by (simp add: syncWithFirebase_def assms(1,2,3) getDocs_def)
qed

lemma saveLoop_accepted:
  assumes "\<forall>r \<in> set refs. r < length h0" and "take (length h0) h = h0"
    and "saveLoop br accepts refs h batch k = Inr x"
  shows "\<forall>r \<in> set refs. accepts (jobId (h0 ! r))"
  using assms
proof (induction refs arbitrary: h batch k)
  case Nil
  then show ?case by simp
next
  case (Cons r refs)
  from Cons.prems have r: "r < length h0" by simp
  have "length (take (length h0) h) = length h0"
    using Cons.prems(2) by simp
  then have len: "length h0 \<le> length h" by simp
  have old: "h ! r = h0 ! r"
    using r Cons.prems(2) by (metis nth_take)
  have a: "accepts (jobId (h0 ! r))"
    using Cons.prems(3) old by (auto split: if_splits)
  obtain h1 where p: "prepareJobForCloud br h r = (length h, h1)"
    and t: "take (length h) h1 = h"
    using prepare_frame by blast
  have t0: "take (length h0) h1 = h0"
    using t len Cons.prems(2) by (metis min.absorb1 take_take)
  have "saveLoop br accepts refs h1
          (batch @ [(jobId (h0 ! r), cleanData (h1 ! length h))]) (Suc k) = Inr x"
    using Cons.prems(3) a old p by simp
  from Cons.IH [OF _ t0 this] Cons.prems(1) a show ?case by simp
qed

lemma sync_returns:
  assumes "fst (syncWithFirebase br localJobs settings fs) = Inr result"
  shows "\<exists>c remoteJobs. firebaseConfig settings = Some c \<and> apiKey c \<noteq> []
           \<and> snapshot fs = Inr remoteJobs
           \<and> (\<forall>j \<in> set (take 450 (mergeFirebase localJobs remoteJobs)). acceptsId fs (jobId j))"
proof -
  from assms obtain c where c: "firebaseConfig settings = Some c" "apiKey c \<noteq> []"
    by (cases "firebaseConfig settings") (auto simp: syncWithFirebase_def split: if_splits)
  from assms c obtain remoteJobs where s: "snapshot fs = Inr remoteJobs"
    by (cases "snapshot fs") (auto simp: syncWithFirebase_def getDocs_def)
  let ?h0 = "mergeFirebase localJobs remoteJobs"
  let ?refs = "take 450 [0..<length ?h0]"
  from assms c s obtain x where "saveLoop br (acceptsId fs) ?refs ?h0 [] 0 = Inr x"
    by (cases "saveLoop br (acceptsId fs) ?refs ?h0 [] 0")
       (auto simp: syncWithFirebase_def getDocs_def)
  moreover have "\<forall>r \<in> set ?refs. r < length ?h0"
    by (auto dest: in_set_takeD)
  ultimately have "\<forall>r \<in> set ?refs. acceptsId fs (jobId (?h0 ! r))"
    using saveLoop_accepted [of ?refs ?h0 ?h0] by simp
  then have "\<forall>j \<in> set (take 450 ?h0). acceptsId fs (jobId j)"
    using refs_take_upt [of 450 ?h0 "\<lambda>j. acceptsId fs (jobId j)"] by blast
  with c s show ?thesis by blast
qed



lemma length_sort_insert: "length (sort_insert cmp x ys) = Suc (length ys)"
  by (induction ys) auto

lemma length_sort_foldl:
  "length (foldl (\<lambda>acc x. sort_insert cmp x acc) acc xs) = length acc + length xs"
  by (induction xs arbitrary: acc) (auto simp: length_sort_insert)

lemma length_array_sort: "length (array_sort cmp xs) = length xs"
  by (simp add: array_sort_def length_sort_foldl)

lemma ids_mergeFirebase:
  "jobId ` set (mergeFirebase ls rs) = jobId ` set ls \<union> jobId ` set rs"
proof -
  let ?m = "foldl fbOverlay (foldl fbSeed [] rs) ls"
  have "keyed ?m"
    by (intro keyed_foldl keyed_fbOverlay keyed_fbSeed keyed_Nil)
  then have "jobId ` set (map_values ?m) = fst ` set ?m"
    by (rule keyed_ids)
  then show ?thesis
    by (auto simp add: mergeFirebase_def set_array_sort keys_foldl_fbOverlay keys_foldl_fbSeed)
qed

lemma length_mergeFirebase:
  assumes "distinct (map jobId ls)"
  shows "length (mergeFirebase ls []) = length ls"
proof -
  let ?m = "foldl fbOverlay [] ls"
  have d: "distinct (map fst ?m)"
    by (intro distinct_foldl distinct_fbOverlay) simp_all
  have "length ?m = length (map fst ?m)" by simp
  also have "\<dots> = card (set (map fst ?m))"
    using d by (simp only: distinct_card)
  also have "set (map fst ?m) = jobId ` set ls"
    by (simp add: keys_foldl_fbOverlay)
  also have "card (jobId ` set ls) = length ls"
    using assms by (metis distinct_card length_map set_map)
  finally show ?thesis
    by (simp add: mergeFirebase_def length_array_sort map_values_def)
qed

lemma manyJobs_ids: "map jobId (manyJobs n) = map (\<lambda>k. replicate (Suc k) CHR ''j'') [0..<n]"
  by (simp add: manyJobs_def createJob_def comp_def)

lemma manyJobs_distinct: "distinct (map jobId (manyJobs n))"
proof -
  have "inj_on (\<lambda>k. replicate (Suc k) CHR ''j'') (set [0..<n])"
    by (rule inj_onI) (metis length_replicate nat.inject)
  then show ?thesis
    by (simp only: manyJobs_ids distinct_map) simp
qed

lemma manyJobs_merge_ids:
  "j \<in> set (mergeFirebase (manyJobs n) []) \<Longrightarrow> jobId j \<noteq> []"
proof -
  assume "j \<in> set (mergeFirebase (manyJobs n) [])"
  then have "jobId j \<in> jobId ` set (manyJobs n)"
    using ids_mergeFirebase [of "manyJobs n" "[]"] by auto
  then have "jobId j \<in> set (map jobId (manyJobs n))" by simp
  then obtain k where "jobId j = replicate (Suc k) CHR ''j''"
    unfolding manyJobs_ids by auto
  then show ?thesis by simp
qed

lemma prepareJobForCloud_copies:
  "r < length h \<Longrightarrow> snd (prepareJobForCloud br h job) ! r = h ! r"
proof -
  obtain h' where "prepareJobForCloud br h job = (length h, h')" and "take (length h) h' = h"
    using prepare_frame by blast
  then show "r < length h \<Longrightarrow> snd (prepareJobForCloud br h job) ! r = h ! r"
    by (metis nth_take snd_conv)
qed

section \<open>Claims about the orchestrators and the image normalizer\<close>

text \<open>
  C7, as stated: for every merged collection \<open>syncWithFirebase\<close> writes at most the
  first 450 jobs and returns the whole merged collection. It does not return for every
  merged collection: \<open>doc(database, COLLECTION_NAME, job.id)\<close> throws for an id that is
  no document id, and nothing catches it. A local job with an empty id ends the call
  with the error, after the read and before any write.
\<close>

theorem batch_cap_counterexample:
  "fst (syncWithFirebase stubBrowser [createJob [] 100 seat None] stubSettings (stubStore []))
     = Inl BackendError
   \<and> calls (snd (syncWithFirebase stubBrowser [createJob [] 100 seat None] stubSettings
                    (stubStore []))) = [GetDocs]"
  by (simp add: syncWithFirebase_def stubSettings_def stubStore_def getDocs_def
      mergeFirebase_def fbOverlay_def map_get_def map_values_def array_sort_def
      createJob_def upt_rec)

text \<open>
  C7, amended: with the settings in place and the collection read, when \<open>doc()\<close>
  accepts the id of each of the first 450 jobs of the merged list, \<open>syncWithFirebase\<close>
  sends, unless the merged list is empty, one batch that holds exactly one \<open>set\<close> for
  each of those jobs, in the order of the list: under the job's id, the job's fields
  with every image compressed, no key for what is \<open>undefined\<close> and \<open>null\<close> for a
  \<open>NaN\<close> createdAt. The jobs beyond the first 450 are not written, and that is no
  error: when the commit resolves, or there is nothing to write, the whole merged list
  is returned; when the commit rejects, its error is raised. When \<open>doc()\<close> refuses
  the id of one of the first 450 jobs the function raises after the read, with nothing
  written.
\<close>

theorem batch_cap:
  assumes "firebaseConfig settings = Some c" and "apiKey c \<noteq> []"
    and "snapshot fs = Inr remoteJobs"
  shows "((\<forall>j \<in> set (take 450 (mergeFirebase localJobs remoteJobs)). acceptsId fs (jobId j))
          \<longrightarrow> syncWithFirebase br localJobs settings fs =
               (if mergeFirebase localJobs remoteJobs = []
                then (Inr (mergeFirebase localJobs remoteJobs),
                      fs\<lparr>calls := calls fs @ [GetDocs]\<rparr>)
                else ((case commitAnswer fs of
                         None \<Rightarrow> Inr (mergeFirebase localJobs remoteJobs)
                       | Some e \<Rightarrow> Inl e),
                      fs\<lparr>calls := calls fs @
                        [GetDocs,
                         Commit
                           (map (\<lambda>j. (jobId j,
                     \<lparr> docId = jobId j,
                        docCreatedAt = (case createdAt j of Num n \<Rightarrow> Some n | NaN \<Rightarrow> None),
                        docStatus = status j,
                        docCarDetails =
                          map_option
                            (\<lambda>c. \<lparr> docPlate = plate c, docMake = make' c,
                                    docModel = model c, docYear = rd (year c),
                                    docColor = rd (color c) \<rparr>)
                            (rd (carDetails j)),
                        docIntakeImage =
                          map_option
                            (\<lambda>img. if img \<noteq> [] then compressDefault br img else img)
                            (rd (intakeImage j)),
                        docDamageImages =
                          map_option (map (compressDefault br)) (rd (damageImages j)),
                        docIdentifiedParts = identifiedParts j,
                        docManualNotes = manualNotes j,
                        docRepairType = repairType j \<rparr>))
                              (take 450 (mergeFirebase localJobs remoteJobs)))]\<rparr>)))
       \<and> ((\<exists>j \<in> set (take 450 (mergeFirebase localJobs remoteJobs)). \<not> acceptsId fs (jobId j))
          \<longrightarrow> syncWithFirebase br localJobs settings fs =
               (Inl BackendError, fs\<lparr>calls := calls fs @ [GetDocs]\<rparr>))
       \<and> length (take 450 (mergeFirebase localJobs remoteJobs)) \<le> 450"
proof (intro conjI impI)
  assume "\<forall>j \<in> set (take 450 (mergeFirebase localJobs remoteJobs)). acceptsId fs (jobId j)"
  from sync_result [OF assms this, of br]
  show "syncWithFirebase br localJobs settings fs =
               (if mergeFirebase localJobs remoteJobs = []
                then (Inr (mergeFirebase localJobs remoteJobs),
                      fs\<lparr>calls := calls fs @ [GetDocs]\<rparr>)
                else ((case commitAnswer fs of
                         None \<Rightarrow> Inr (mergeFirebase localJobs remoteJobs)
                       | Some e \<Rightarrow> Inl e),
                      fs\<lparr>calls := calls fs @
                        [GetDocs,
                         Commit
                           (map (\<lambda>j. (jobId j,
                     \<lparr> docId = jobId j,
                        docCreatedAt = (case createdAt j of Num n \<Rightarrow> Some n | NaN \<Rightarrow> None),
                        docStatus = status j,
                        docCarDetails =
                          map_option
                            (\<lambda>c. \<lparr> docPlate = plate c, docMake = make' c,
                                    docModel = model c, docYear = rd (year c),
                                    docColor = rd (color c) \<rparr>)
                            (rd (carDetails j)),
                        docIntakeImage =
                          map_option
                            (\<lambda>img. if img \<noteq> [] then compressDefault br img else img)
                            (rd (intakeImage j)),
                        docDamageImages =
                          map_option (map (compressDefault br)) (rd (damageImages j)),
                        docIdentifiedParts = identifiedParts j,
                        docManualNotes = manualNotes j,
                        docRepairType = repairType j \<rparr>))
                              (take 450 (mergeFirebase localJobs remoteJobs)))]\<rparr>))"
    by (simp add: writtenDoc_def)
next
  assume "\<exists>j \<in> set (take 450 (mergeFirebase localJobs remoteJobs)). \<not> acceptsId fs (jobId j)"
  from sync_rejected [OF assms this]
  show "syncWithFirebase br localJobs settings fs =
          (Inl BackendError, fs\<lparr>calls := calls fs @ [GetDocs]\<rparr>)" .
next
  show "length (take 450 (mergeFirebase localJobs remoteJobs)) \<le> 450" by simp
qed

text \<open>
  Two runs. With 451 local jobs and an empty collection the batch has 450 operations
  and the returned list has 451 jobs. With one job that holds the image \<open>big\<close>, the
  document written is the job with the image compressed and without the key of the
  undefined year and color.
\<close>

theorem batch_cap_witness:
  "firebaseConfig stubSettings \<noteq> None
   \<and> snapshot (stubStore []) = Inr []
   \<and> list_all (\<lambda>j. acceptsId (stubStore []) (jobId j))
        (take 450 (mergeFirebase (manyJobs 451) []))
   \<and> length (mergeFirebase (manyJobs 451) []) = 451
   \<and> fst (syncWithFirebase stubBrowser (manyJobs 451) stubSettings (stubStore []))
       = Inr (mergeFirebase (manyJobs 451) [])
   \<and> (\<exists>batch. calls (snd (syncWithFirebase stubBrowser (manyJobs 451) stubSettings
                             (stubStore []))) = [GetDocs, Commit batch]
         \<and> length batch = 450)
   \<and> syncWithFirebase stubBrowser [createJob ''A'' 100 seat (Some ''big'')] stubSettings
        (stubStore [])
       = (Inr [createJob ''A'' 100 seat (Some ''big'')],
          (stubStore [])\<lparr>calls :=
            [GetDocs,
             Commit [(''A'',
               \<lparr> docId = ''A'', docCreatedAt = Some 100, docStatus = ''Ingreso'',
                 docCarDetails =
                   Some \<lparr> docPlate = ''1234ABC'', docMake = ''Seat'', docModel = ''Ibiza'',
                          docYear = None, docColor = None \<rparr>,
                 docIntakeImage = Some ''small:big'', docDamageImages = Some [],
                 docIdentifiedParts = [], docManualNotes = [],
                 docRepairType = ''CHAPA'' \<rparr>)]]\<rparr>)"
proof -
  let ?m = "mergeFirebase (manyJobs 451) []"
  have "length (manyJobs 451) = 451"
    by (simp add: manyJobs_def)
  then have len: "length ?m = 451"
    using length_mergeFirebase [OF manyJobs_distinct, of 451] by simp
  then have ne: "?m \<noteq> []" by auto
  have acc: "\<forall>j \<in> set (take 450 ?m). acceptsId (stubStore []) (jobId j)"
    using manyJobs_merge_ids [of _ 451] by (auto simp: stubStore_def dest: in_set_takeD)
  have cfg: "firebaseConfig stubSettings = Some (the (firebaseConfig stubSettings))"
    "apiKey (the (firebaseConfig stubSettings)) \<noteq> []"
    "snapshot (stubStore []) = Inr []"
    by (simp_all add: stubSettings_def stubStore_def)
  have one: "mergeFirebase [createJob ''A'' 100 seat (Some ''big'')] []
      = [createJob ''A'' 100 seat (Some ''big'')]"
    by (simp add: createJob_def mergeFirebase_def fbOverlay_def map_get_def map_values_def
        array_sort_def js_or_def)
  have small: "compressDefault stubBrowser ''big'' = ''small:big''"
    by (simp add: compressDefault_def compressImage_def canvasSize_def roundDiv_def
        stubBrowser_def)
  from batch_cap [OF cfg, of "manyJobs 451" stubBrowser] acc ne
  have big: "syncWithFirebase stubBrowser (manyJobs 451) stubSettings (stubStore []) =
      (Inr ?m,
       (stubStore [])\<lparr>calls := calls (stubStore []) @
          [GetDocs, Commit (map (\<lambda>j. (jobId j, writtenDoc stubBrowser j)) (take 450 ?m))]\<rparr>)"
    by (simp add: writtenDoc_def stubStore_def)
  from batch_cap [OF cfg, of "[createJob ''A'' 100 seat (Some ''big'')]" stubBrowser]
  have little: "syncWithFirebase stubBrowser [createJob ''A'' 100 seat (Some ''big'')]
        stubSettings (stubStore [])
       = (Inr [createJob ''A'' 100 seat (Some ''big'')],
          (stubStore [])\<lparr>calls :=
            [GetDocs,
             Commit [(''A'',
               \<lparr> docId = ''A'', docCreatedAt = Some 100, docStatus = ''Ingreso'',
                 docCarDetails =
                   Some \<lparr> docPlate = ''1234ABC'', docMake = ''Seat'', docModel = ''Ibiza'',
                          docYear = None, docColor = None \<rparr>,
                 docIntakeImage = Some ''small:big'', docDamageImages = Some [],
                 docIdentifiedParts = [], docManualNotes = [],
                 docRepairType = ''CHAPA'' \<rparr>)]]\<rparr>)"
    unfolding one
    by (simp add: small) (simp add: createJob_def js_or_def seat_def stubStore_def
        JobStatus_INTAKE_def small)
  show ?thesis
    using len acc cfg(3)
    by (simp add: big little list_all_iff) (simp add: stubSettings_def stubStore_def)
qed

text \<open>
  C8: without the document store descriptor \<open>syncWithFirebase\<close> raises the
  configuration error and the backend is as it was, no call recorded; without the
  spreadsheet id or the access token \<open>syncWithGoogleSheets\<close> does the same; and
  whenever \<open>syncWithFirebase\<close> raises, the caller keeps the job list it had.
\<close>

theorem config_fail_fast:
  "(firebaseConfig settings = None
      \<longrightarrow> syncWithFirebase br localJobs settings fs = (Inl ConfigError, fs))
   \<and> (googleSheetId settings = None \<or> googleAccessToken settings = None
      \<longrightarrow> syncWithGoogleSheets env localJobs settings sh = (Inl ConfigError, sh))
   \<and> (isl (fst (syncWithFirebase br localJobs settings fs))
      \<longrightarrow> jobs (fst (performSync br localJobs settings app fs)) = jobs app)"
proof (intro conjI impI)
  assume "firebaseConfig settings = None"
  then show "syncWithFirebase br localJobs settings fs = (Inl ConfigError, fs)"
    by (simp add: syncWithFirebase_def)
next
  assume "googleSheetId settings = None \<or> googleAccessToken settings = None"
  then show "syncWithGoogleSheets env localJobs settings sh = (Inl ConfigError, sh)"
    by (auto simp: syncWithGoogleSheets_def)
next
  assume "isl (fst (syncWithFirebase br localJobs settings fs))"
  then show "jobs (fst (performSync br localJobs settings app fs)) = jobs app"
    by (cases "syncWithFirebase br localJobs settings fs")
       (auto simp: performSync_def split: option.splits sum.splits)
qed

theorem config_fail_fast_witness:
  "firebaseConfig noSettings = None
   \<and> googleSheetId noSettings = None
   \<and> syncWithFirebase stubBrowser (jobs stubApp) noSettings (stubStore [])
       = (Inl ConfigError, stubStore [])
   \<and> syncWithGoogleSheets stubEnv (jobs stubApp) noSettings stubSheets
       = (Inl ConfigError, stubSheets)
   \<and> isl (fst (syncWithFirebase stubBrowser (jobs stubApp) noSettings (stubStore [])))
   \<and> jobs (fst (performSync stubBrowser (jobs stubApp) noSettings stubApp (stubStore [])))
       = jobs stubApp"
  using config_fail_fast [of noSettings stubBrowser "jobs stubApp" "stubStore []" stubEnv
      stubSheets stubApp]
  by (simp add: noSettings_def)



text \<open>
  C10: whenever \<open>syncWithFirebase\<close> returns a list, that list is the output of the
  merge step, read back from the store after the write phase: the compression and the
  sanitizing worked on copies, and the same list comes back whatever the browser makes
  of the images.
\<close>

theorem returned_list_unaffected:
  assumes "fst (syncWithFirebase br localJobs settings fs) = Inr result"
  shows "\<exists>remoteJobs. snapshot fs = Inr remoteJobs
           \<and> result = mergeFirebase localJobs remoteJobs
           \<and> map intakeImage result = map intakeImage (mergeFirebase localJobs remoteJobs)
           \<and> map damageImages result = map damageImages (mergeFirebase localJobs remoteJobs)
           \<and> (\<forall>br'. fst (syncWithFirebase br' localJobs settings fs) = Inr result)"
proof -
  from sync_returns [OF assms] obtain c remoteJobs where
    c: "firebaseConfig settings = Some c" "apiKey c \<noteq> []"
    and s: "snapshot fs = Inr remoteJobs"
    and a: "\<forall>j \<in> set (take 450 (mergeFirebase localJobs remoteJobs)). acceptsId fs (jobId j)"
    by blast
  have run: "fst (syncWithFirebase br' localJobs settings fs) =
      (if mergeFirebase localJobs remoteJobs = [] then Inr (mergeFirebase localJobs remoteJobs)
       else (case commitAnswer fs of
               None \<Rightarrow> Inr (mergeFirebase localJobs remoteJobs)
             | Some e \<Rightarrow> Inl e))" for br'
    using sync_result [OF c s a, of br'] by (simp split: option.splits)
  from assms run [of br] have r: "result = mergeFirebase localJobs remoteJobs"
    by (auto split: if_splits option.splits)
  from assms run [of br] run have "fst (syncWithFirebase br' localJobs settings fs) = Inr result"
    for br'
    by simp
  with s r show ?thesis by blast
qed

text \<open>
  One run: the local job holds the image \<open>big\<close>; the batch carries the compressed
  \<open>small:big\<close>, the returned job still holds \<open>big\<close>.
\<close>

theorem returned_list_unaffected_witness:
  "fst (syncWithFirebase stubBrowser [createJob ''A'' 100 seat (Some ''big'')] stubSettings
          (stubStore []))
     = Inr [createJob ''A'' 100 seat (Some ''big'')]
   \<and> map (\<lambda>c. case c of Commit b \<Rightarrow> map (\<lambda>d. docIntakeImage (snd d)) b | GetDocs \<Rightarrow> [])
       (calls (snd (syncWithFirebase stubBrowser [createJob ''A'' 100 seat (Some ''big'')]
                      stubSettings (stubStore []))))
     = [[], [Some ''small:big'']]"
proof -
  have run: "syncWithFirebase stubBrowser [createJob ''A'' 100 seat (Some ''big'')] stubSettings
       (stubStore [])
     = (Inr [createJob ''A'' 100 seat (Some ''big'')],
        (stubStore [])\<lparr>calls :=
           [GetDocs, Commit [(''A'', cleanData ((createJob ''A'' 100 seat (Some ''big''))
                                         \<lparr>intakeImage := Present ''small:big''\<rparr>))]]\<rparr>)"
    by (simp add: syncWithFirebase_def stubSettings_def stubStore_def getDocs_def commit_def
        mergeFirebase_def fbOverlay_def map_get_def map_values_def array_sort_def
        prepareJobForCloud_def allocate_def createJob_def js_or_def compressDefault_def
        compressImage_def canvasSize_def roundDiv_def stubBrowser_def upt_rec)
  from returned_list_unaffected
    [of stubBrowser "[createJob ''A'' 100 seat (Some ''big'')]" stubSettings "stubStore []"
       "[createJob ''A'' 100 seat (Some ''big'')]"]
  show ?thesis
    by (simp add: run) (simp add: cleanData_def stubStore_def)
qed

end
